theory Spec2Isabelle
  imports Complex_Main "HOL-Library.Word"
begin

section \<open>JavaScript strings and numbers\<close>

text \<open>
  The component of \<^verbatim>\<open>src/App.tsx\<close> keeps its history in \<^verbatim>\<open>localStorage\<close> as JSON text. The
  first three sections model what it uses of the platform (strings, the printing of
  numbers, \<^verbatim>\<open>JSON.stringify\<close> and \<^verbatim>\<open>JSON.parse\<close>, after ECMA-262 and ECMA-404); the
  component itself follows.

  A JavaScript string is a sequence of UTF-16 code units. The strings of \<^verbatim>\<open>App.tsx\<close> are
  ASCII apart from the four reward icons, which are written out as code units below.
\<close>

type_synonym jsstring = "16 word list"

definition js :: "string \<Rightarrow> jsstring" where
  "js s = map of_char s"

definition isDigit :: "16 word \<Rightarrow> bool" where
  "isDigit u = (0x30 \<le> u \<and> u \<le> 0x39)"

definition digitChar :: "nat \<Rightarrow> 16 word" where
  "digitChar n = of_nat (48 + n)"

definition digitVal :: "16 word \<Rightarrow> nat" where
  "digitVal u = unat u - 48"

text \<open>The decimal digits of a natural number, most significant first.\<close>

fun digitsOf :: "nat \<Rightarrow> jsstring" where
  "digitsOf n = (if n < 10 then [digitChar n] else digitsOf (n div 10) @ [digitChar (n mod 10)])"

declare digitsOf.simps [simp del]

definition natOfDigits :: "jsstring \<Rightarrow> nat" where
  "natOfDigits ds = foldl (\<lambda>acc u. acc * 10 + digitVal u) 0 ds"

definition stripTrailingZeros :: "jsstring \<Rightarrow> jsstring" where
  "stripTrailingZeros ds = rev (dropWhile (\<lambda>u. u = 0x30) (rev ds))"

text \<open>
  A number is kept as an exact decimal: \<open>m\<close> and \<open>d\<close> stand for \<open>m / 10 ^ d\<close>, so an
  integer \<open>n\<close> is \<open>n\<close> and \<open>0\<close>. The numbers the component creates are integers far below
  \<open>2 ^ 53\<close> (a card number, \<^verbatim>\<open>Date.now()\<close>), where a double is exact too. The rounding of
  a longer literal to the nearest double is outside this development.

  \<open>numberToString\<close> is \<^verbatim>\<open>Number::toString\<close> in radix 10: with \<open>s\<close> the digits
  without trailing zeros, \<open>k\<close> their number and \<open>n\<close> the position of the decimal point,
  plain digits when \<open>-5 \<le> n \<le> 21\<close> and the exponent form otherwise.
\<close>

definition numberToString :: "int \<Rightarrow> nat \<Rightarrow> jsstring" where
  "numberToString m d =
     (if m = 0 then js ''0''
      else (if m < 0 then js ''-'' else []) @
        (let ds = digitsOf (nat \<bar>m\<bar>);
             s = stripTrailingZeros ds;
             k = int (length s);
             n = int (length ds) - int d
         in if -5 \<le> n \<and> n \<le> 21 then
              (if k \<le> n then s @ replicate (nat (n - k)) 0x30
               else if 0 < n then take (nat n) s @ js ''.'' @ drop (nat n) s
               else js ''0.'' @ replicate (nat (- n)) 0x30 @ s)
            else
              (let e = n - 1;
                   ex = (if e < 0 then js ''-'' else js ''+'') @ digitsOf (nat \<bar>e\<bar>)
               in if k = 1 then s @ js ''e'' @ ex
                  else take 1 s @ js ''.'' @ drop 1 s @ js ''e'' @ ex)))"

section \<open>JSON values, \<^verbatim>\<open>JSON.stringify\<close>\<close>

text \<open>
  The values \<^verbatim>\<open>JSON.parse\<close> can return, which are also the values the \<^verbatim>\<open>history\<close> state
  can hold at run time: the cast \<^verbatim>\<open>as HistoryEntry[]\<close> of line 83 checks nothing. An
  object is the list of its properties in enumeration order.
\<close>

datatype json =
    JNull
  | JBool bool
  | JNum int nat
  | JStr jsstring
  | JArr "json list"
  | JObj "(jsstring \<times> json) list"

definition isHighSurrogate :: "16 word \<Rightarrow> bool" where
  "isHighSurrogate u = (0xD800 \<le> u \<and> u \<le> 0xDBFF)"

definition isLowSurrogate :: "16 word \<Rightarrow> bool" where
  "isLowSurrogate u = (0xDC00 \<le> u \<and> u \<le> 0xDFFF)"

definition hexChar :: "nat \<Rightarrow> 16 word" where
  "hexChar n = (if n < 10 then of_nat (48 + n) else of_nat (87 + n))"

text \<open>\<^verbatim>\<open>\uXXXX\<close> with four lower-case hexadecimal digits.\<close>

definition unicodeEscape :: "16 word \<Rightarrow> jsstring" where
  "unicodeEscape u =
     (let n = unat u
      in [0x5C, 0x75, hexChar (n div 4096), hexChar (n div 256 mod 16),
          hexChar (n div 16 mod 16), hexChar (n mod 16)])"

text \<open>
  \<^verbatim>\<open>QuoteJSONString\<close>: the two-character escapes, \<^verbatim>\<open>\uXXXX\<close> for the other control
  characters and for a surrogate that is not half of a pair, every other code unit as it is.
\<close>

definition escapeUnit :: "16 word \<Rightarrow> jsstring" where
  "escapeUnit u =
     (if u = 0x08 then [0x5C, 0x62]
      else if u = 0x09 then [0x5C, 0x74]
      else if u = 0x0A then [0x5C, 0x6E]
      else if u = 0x0C then [0x5C, 0x66]
      else if u = 0x0D then [0x5C, 0x72]
      else if u = 0x22 then [0x5C, 0x22]
      else if u = 0x5C then [0x5C, 0x5C]
      else if u < 0x20 \<or> isHighSurrogate u \<or> isLowSurrogate u then unicodeEscape u
      else [u])"

fun quoteChars :: "jsstring \<Rightarrow> jsstring" where
  "quoteChars [] = []"
| "quoteChars [u] = escapeUnit u"
| "quoteChars (u # v # us) =
     (if isHighSurrogate u \<and> isLowSurrogate v then u # v # quoteChars us
      else escapeUnit u @ quoteChars (v # us))"

definition quoteJSONString :: "jsstring \<Rightarrow> jsstring" where
  "quoteJSONString s = 0x22 # quoteChars s @ [0x22]"

fun commaSep :: "jsstring list \<Rightarrow> jsstring" where
  "commaSep [] = []"
| "commaSep [x] = x"
| "commaSep (x # y # ys) = x @ 0x2C # commaSep (y # ys)"

text \<open>
  Modelled from the spec: \<^verbatim>\<open>JSON.stringify\<close> is a function of the platform and is not
  among the sources. The spec has the history persisted as a JSON array of the entries in
  their order; the function is written here after ECMA-262 (\<^verbatim>\<open>SerializeJSONProperty\<close>,
  \<^verbatim>\<open>QuoteJSONString\<close>, \<^verbatim>\<open>Number::toString\<close>).
\<close>

fun JSON_stringify :: "json \<Rightarrow> jsstring" where
  "JSON_stringify JNull = js ''null''"
| "JSON_stringify (JBool b) = (if b then js ''true'' else js ''false'')"
| "JSON_stringify (JNum m d) = numberToString m d"
| "JSON_stringify (JStr s) = quoteJSONString s"
| "JSON_stringify (JArr vs) = 0x5B # commaSep (map JSON_stringify vs) @ [0x5D]"
| "JSON_stringify (JObj ms) =
     0x7B # commaSep (map (\<lambda>(k, v). quoteJSONString k @ 0x3A # JSON_stringify v) ms) @ [0x7D]"

section \<open>\<^verbatim>\<open>JSON.parse\<close>\<close>

text \<open>
  The JSON grammar of ECMA-404, read in two passes: the text is cut into tokens, and the
  tokens are read by an automaton with a stack of the containers that are still open. A
  text outside the grammar gives \<open>None\<close>: \<^verbatim>\<open>JSON.parse\<close> throws a \<^verbatim>\<open>SyntaxError\<close> there.
\<close>

datatype token =
    TLBrack | TRBrack | TLBrace | TRBrace | TComma | TColon
  | TString jsstring
  | TNumber int nat
  | TTrue | TFalse | TNull

definition isWhitespace :: "16 word \<Rightarrow> bool" where
  "isWhitespace u = (u = 0x20 \<or> u = 0x09 \<or> u = 0x0A \<or> u = 0x0D)"

definition hexVal :: "16 word \<Rightarrow> nat option" where
  "hexVal u =
     (if 0x30 \<le> u \<and> u \<le> 0x39 then Some (unat u - 48)
      else if 0x41 \<le> u \<and> u \<le> 0x46 then Some (unat u - 55)
      else if 0x61 \<le> u \<and> u \<le> 0x66 then Some (unat u - 87)
      else None)"

definition hex4 :: "16 word \<Rightarrow> 16 word \<Rightarrow> 16 word \<Rightarrow> 16 word \<Rightarrow> 16 word option" where
  "hex4 a b c d =
     (case hexVal a of None \<Rightarrow> None | Some x \<Rightarrow>
       (case hexVal b of None \<Rightarrow> None | Some y \<Rightarrow>
         (case hexVal c of None \<Rightarrow> None | Some z \<Rightarrow>
           (case hexVal d of None \<Rightarrow> None | Some w \<Rightarrow>
              Some (of_nat (4096 * x + 256 * y + 16 * z + w))))))"

text \<open>The character after a backslash, other than \<^verbatim>\<open>u\<close>.\<close>

definition unescape :: "16 word \<Rightarrow> 16 word option" where
  "unescape e =
     (if e = 0x22 then Some 0x22
      else if e = 0x5C then Some 0x5C
      else if e = 0x2F then Some 0x2F
      else if e = 0x62 then Some 0x08
      else if e = 0x66 then Some 0x0C
      else if e = 0x6E then Some 0x0A
      else if e = 0x72 then Some 0x0D
      else if e = 0x74 then Some 0x09
      else None)"

definition consChar :: "16 word \<Rightarrow> (jsstring \<times> jsstring) option \<Rightarrow> (jsstring \<times> jsstring) option" where
  "consChar w r = (case r of None \<Rightarrow> None | Some (s, rest) \<Rightarrow> Some (w # s, rest))"

text \<open>
  A string literal after its opening quote: the string it denotes and the text after the
  closing quote. A control character cannot stand in a literal unescaped.
\<close>

fun lexString :: "jsstring \<Rightarrow> (jsstring \<times> jsstring) option" where
  "lexString [] = None"
| "lexString (u # us) =
     (if u = 0x22 then Some ([], us)
      else if u = 0x5C then
        (case us of
           [] \<Rightarrow> None
         | e # us' \<Rightarrow>
             if e = 0x75 then
               (case us' of
                  a # b # c # d # us'' \<Rightarrow>
                    (case hex4 a b c d of
                       None \<Rightarrow> None
                     | Some w \<Rightarrow> consChar w (lexString us''))
                | _ \<Rightarrow> None)
             else
               (case unescape e of
                  None \<Rightarrow> None
                | Some w \<Rightarrow> consChar w (lexString us')))
      else if u < 0x20 then None
      else consChar u (lexString us))"

text \<open>
  A fraction of \<open>d\<close> decimal places is kept in lowest terms, so that a number has one
  representation: \<^verbatim>\<open>1.50\<close> and \<^verbatim>\<open>1.5\<close> are the same number.
\<close>

fun reduceFraction :: "nat \<Rightarrow> nat \<Rightarrow> nat \<times> nat" where
  "reduceFraction m 0 = (m, 0)"
| "reduceFraction m (Suc d) =
     (if m mod 10 = 0 then reduceFraction (m div 10) d else (m, Suc d))"

definition mkNumber :: "bool \<Rightarrow> nat \<Rightarrow> int \<Rightarrow> int \<times> nat" where
  "mkNumber neg mant ex =
     (let (m, d) = (if 0 \<le> ex then (mant * 10 ^ nat ex, 0) else reduceFraction mant (nat (- ex)))
      in (if neg then - int m else int m, d))"

text \<open>
  A number literal: an optional minus sign, \<^verbatim>\<open>0\<close> or digits that do not start with
  \<^verbatim>\<open>0\<close>, an optional fraction, an optional exponent.
\<close>

definition lexInt :: "jsstring \<Rightarrow> (jsstring \<times> jsstring) option" where
  "lexInt us =
     (case us of
        [] \<Rightarrow> None
      | u # us' \<Rightarrow>
          if u = 0x30 then Some ([u], us')
          else if isDigit u then Some (takeWhile isDigit us, dropWhile isDigit us)
          else None)"

definition lexFrac :: "jsstring \<Rightarrow> (jsstring \<times> jsstring) option" where
  "lexFrac us =
     (case us of
        [] \<Rightarrow> Some ([], us)
      | u # us' \<Rightarrow>
          if u = 0x2E then
            (if takeWhile isDigit us' = [] then None
             else Some (takeWhile isDigit us', dropWhile isDigit us'))
          else Some ([], us))"

definition lexExp :: "jsstring \<Rightarrow> (int \<times> jsstring) option" where
  "lexExp us =
     (case us of
        [] \<Rightarrow> Some (0, us)
      | u # us' \<Rightarrow>
          if u = 0x65 \<or> u = 0x45 then
            (let signed = (take 1 us' = [0x2D] \<or> take 1 us' = [0x2B]);
                 us'' = (if signed then drop 1 us' else us');
                 ed = takeWhile isDigit us''
             in if ed = [] then None
                else Some (if take 1 us' = [0x2D] then - int (natOfDigits ed)
                           else int (natOfDigits ed),
                           dropWhile isDigit us''))
          else Some (0, us))"

definition lexNumber :: "jsstring \<Rightarrow> ((int \<times> nat) \<times> jsstring) option" where
  "lexNumber us =
     (let neg = (take 1 us = [0x2D]);
          us1 = (if neg then drop 1 us else us)
      in case lexInt us1 of
           None \<Rightarrow> None
         | Some (ip, us2) \<Rightarrow>
             (case lexFrac us2 of
                None \<Rightarrow> None
              | Some (fr, us3) \<Rightarrow>
                  (case lexExp us3 of
                     None \<Rightarrow> None
                   | Some (ex, us4) \<Rightarrow>
                       Some (mkNumber neg (natOfDigits (ip @ fr)) (ex - int (length fr)),
                             us4))))"

text \<open>
  A string and a number take at least one code unit of the text, which is what makes the
  first pass terminate.
\<close>

lemma consChar_Some: "consChar w r = Some (s, rest) \<longleftrightarrow> (\<exists>s'. r = Some (s', rest) \<and> s = w # s')"
  by (auto simp: consChar_def split: option.splits)

lemma lexString_shorter:
  "lexString us = Some (s, rest) \<Longrightarrow> length rest < length us"
proof (induction us arbitrary: s rest rule: length_induct)
  case (1 us)
  have sub: "length rest < length us"
    if "lexString ys = Some (s', rest)" "length ys < length us" for ys s'
  proof -
    have "length rest < length ys" using 1(1) that by blast
    with that(2) show ?thesis by simp
  qed
  show ?case
  proof (cases us)
    case Nil
    with 1(2) show ?thesis by simp
  next
    case (Cons u us1)
    show ?thesis
    proof (cases "u = 0x22")
      case True
      with 1(2) Cons show ?thesis by simp
    next
      case nq: False
      show ?thesis
      proof (cases "u = 0x5C")
        case False
        with nq 1(2) Cons obtain s' where "lexString us1 = Some (s', rest)"
          by (auto simp: consChar_Some split: if_splits)
        then show ?thesis using sub Cons by simp
      next
        case bs: True
        show ?thesis
        proof (cases us1)
          case Nil
          with bs nq 1(2) Cons show ?thesis by simp
        next
          case e: (Cons e us2)
          show ?thesis
          proof (cases "e = 0x75")
            case False
            with e bs nq 1(2) Cons obtain s' where "lexString us2 = Some (s', rest)"
              by (auto simp: consChar_Some split: option.splits)
            then show ?thesis using sub Cons e by simp
          next
            case eu: True
            have consumed:
              "(case us2 of
                  a # b # c # d # r \<Rightarrow>
                    (case hex4 a b c d of None \<Rightarrow> None
                     | Some w \<Rightarrow> consChar w (lexString r))
                | _ \<Rightarrow> None) = Some (s, rest)"
              using 1(2) Cons nq bs e eu by simp
            then obtain a b c d r4 where us2: "us2 = a # b # c # d # r4"
              by (simp split: list.splits)
            with consumed obtain w where "consChar w (lexString r4) = Some (s, rest)"
              by (simp split: option.splits)
            then obtain s' where "lexString r4 = Some (s', rest)"
              by (auto simp: consChar_Some)
            then show ?thesis using us2 sub [of r4 s'] Cons e by simp
          qed
        qed
      qed
    qed
  qed
qed

lemma lexInt_shorter: "lexInt us = Some (ip, rest) \<Longrightarrow> length rest < length us"
  by (auto simp: lexInt_def less_Suc_eq_le length_dropWhile_le split: list.splits if_splits)

lemma lexFrac_shorter: "lexFrac us = Some (fr, rest) \<Longrightarrow> length rest \<le> length us"
  by (auto simp: lexFrac_def le_Suc_eq length_dropWhile_le split: list.splits if_splits)

lemma lexExp_shorter: "lexExp us = Some (ex, rest) \<Longrightarrow> length rest \<le> length us"
proof -
  have "length (dropWhile isDigit (drop k ys)) \<le> Suc (length ys)" for k and ys :: jsstring
    using length_dropWhile_le [of isDigit "drop k ys"] by simp
  moreover have "length (dropWhile isDigit ys) \<le> Suc (length ys)" for ys :: jsstring
    using length_dropWhile_le [of isDigit ys] by simp
  ultimately show "lexExp us = Some (ex, rest) \<Longrightarrow> length rest \<le> length us"
    by (auto simp: lexExp_def Let_def split: list.splits if_splits)
qed

lemma lexNumber_shorter:
  assumes "lexNumber us = Some (n, rest)"
  shows "length rest < length us"
proof -
  obtain ip us2 fr us3 ex where
    a: "lexInt (if take 1 us = [0x2D] then drop 1 us else us) = Some (ip, us2)"
    and b: "lexFrac us2 = Some (fr, us3)" and c: "lexExp us3 = Some (ex, rest)"
    using assms by (auto simp: lexNumber_def Let_def split: option.splits)
  have "length us2 < length (if take 1 us = [0x2D] then drop 1 us else us)"
    using lexInt_shorter [OF a] .
  then have "length us2 < length us" by (simp split: if_splits)
  with lexFrac_shorter [OF b] lexExp_shorter [OF c] show ?thesis by simp
qed

text \<open>
  One step of the first pass: the token at the head of the text (none for a white space
  character) and the text after it.
\<close>

definition lexToken :: "16 word \<Rightarrow> jsstring \<Rightarrow> (token option \<times> jsstring) option" where
  "lexToken u us =
     (if isWhitespace u then Some (None, us)
      else if u = 0x5B then Some (Some TLBrack, us)
      else if u = 0x5D then Some (Some TRBrack, us)
      else if u = 0x7B then Some (Some TLBrace, us)
      else if u = 0x7D then Some (Some TRBrace, us)
      else if u = 0x2C then Some (Some TComma, us)
      else if u = 0x3A then Some (Some TColon, us)
      else if u = 0x22 then
        (case lexString us of
           None \<Rightarrow> None
         | Some (s, rest) \<Rightarrow> Some (Some (TString s), rest))
      else if u = 0x2D \<or> isDigit u then
        (case lexNumber (u # us) of
           None \<Rightarrow> None
         | Some ((m, d), rest) \<Rightarrow> Some (Some (TNumber m d), rest))
      else if take 4 (u # us) = js ''true'' then Some (Some TTrue, drop 3 us)
      else if take 5 (u # us) = js ''false'' then Some (Some TFalse, drop 4 us)
      else if take 4 (u # us) = js ''null'' then Some (Some TNull, drop 3 us)
      else None)"

lemma lexToken_shorter:
  "lexToken u us = Some (t, rest) \<Longrightarrow> length rest \<le> length us"
  using lexString_shorter [of us] lexNumber_shorter [of "u # us"]
  by (fastforce simp: lexToken_def split: if_splits option.splits)

function tokenize :: "jsstring \<Rightarrow> token list option" where
  "tokenize [] = Some []"
| "tokenize (u # us) =
     (case lexToken u us of
        None \<Rightarrow> None
      | Some (t, rest) \<Rightarrow>
          (case t of
             None \<Rightarrow> tokenize rest
           | Some tk \<Rightarrow> map_option ((#) tk) (tokenize rest)))"
  by pat_completeness auto
termination
proof (relation "measure length", goal_cases)
  case (2 u us x2 x y)
  then show ?case using lexToken_shorter [of u us x y] by simp
next
  case (3 u us x2 x y x2a)
  then show ?case using lexToken_shorter [of u us x y] by simp
qed simp

text \<open>
  The second pass. A frame is a container that is still open: an array with the elements
  read so far, or an object with its properties so far and the key whose value is being
  read.
\<close>

datatype frame =
    ArrayFrame "json list"
  | ObjectFrame "(jsstring \<times> json) list" jsstring

datatype pstate =
    ExpectValue "frame list"
  | ArrayOpen "frame list"
  | InArray "json list" "frame list"
  | ObjectOpen "frame list"
  | ExpectKey "(jsstring \<times> json) list" "frame list"
  | ExpectColon "(jsstring \<times> json) list" jsstring "frame list"
  | InObject "(jsstring \<times> json) list" "frame list"
  | Finished json

text \<open>
  An object lists its array-index keys first, in ascending order, then the other keys in
  the order of their creation (\<^verbatim>\<open>OrdinaryOwnPropertyKeys\<close>); a key that comes twice keeps
  its place and takes the later value.
\<close>

definition arrayIndex :: "jsstring \<Rightarrow> nat option" where
  "arrayIndex k =
     (if k \<noteq> [] \<and> list_all isDigit k \<and> (k = [0x30] \<or> hd k \<noteq> 0x30)
         \<and> natOfDigits k < 4294967295
      then Some (natOfDigits k) else None)"

fun insertIndexed :: "nat \<Rightarrow> jsstring \<Rightarrow> json \<Rightarrow> (jsstring \<times> json) list \<Rightarrow> (jsstring \<times> json) list" where
  "insertIndexed i k v [] = [(k, v)]"
| "insertIndexed i k v ((k', v') # ms) =
     (case arrayIndex k' of
        None \<Rightarrow> (k, v) # (k', v') # ms
      | Some j \<Rightarrow> if j < i then (k', v') # insertIndexed i k v ms else (k, v) # (k', v') # ms)"

definition defineProperty :: "(jsstring \<times> json) list \<Rightarrow> jsstring \<Rightarrow> json \<Rightarrow> (jsstring \<times> json) list" where
  "defineProperty ms k v =
     (if k \<in> set (map fst ms) then map (\<lambda>(k', v'). if k' = k then (k', v) else (k', v')) ms
      else case arrayIndex k of
             None \<Rightarrow> ms @ [(k, v)]
           | Some i \<Rightarrow> insertIndexed i k v ms)"

text \<open>A value is complete: it goes to the innermost open container.\<close>

fun deliver :: "json \<Rightarrow> frame list \<Rightarrow> pstate" where
  "deliver v [] = Finished v"
| "deliver v (ArrayFrame es # st) = InArray (es @ [v]) st"
| "deliver v (ObjectFrame ms k # st) = InObject (defineProperty ms k v) st"

fun beginValue :: "frame list \<Rightarrow> token \<Rightarrow> pstate option" where
  "beginValue st TNull = Some (deliver JNull st)"
| "beginValue st TTrue = Some (deliver (JBool True) st)"
| "beginValue st TFalse = Some (deliver (JBool False) st)"
| "beginValue st (TNumber m d) = Some (deliver (JNum m d) st)"
| "beginValue st (TString s) = Some (deliver (JStr s) st)"
| "beginValue st TLBrack = Some (ArrayOpen st)"
| "beginValue st TLBrace = Some (ObjectOpen st)"
| "beginValue st _ = None"

fun step :: "pstate \<Rightarrow> token \<Rightarrow> pstate option" where
  "step (ExpectValue st) t = beginValue st t"
| "step (ArrayOpen st) t =
     (if t = TRBrack then Some (deliver (JArr []) st) else beginValue (ArrayFrame [] # st) t)"
| "step (InArray es st) t =
     (if t = TComma then Some (ExpectValue (ArrayFrame es # st))
      else if t = TRBrack then Some (deliver (JArr es) st)
      else None)"
| "step (ObjectOpen st) t =
     (case t of
        TRBrace \<Rightarrow> Some (deliver (JObj []) st)
      | TString k \<Rightarrow> Some (ExpectColon [] k st)
      | _ \<Rightarrow> None)"
| "step (ExpectKey ms st) t =
     (case t of TString k \<Rightarrow> Some (ExpectColon ms k st) | _ \<Rightarrow> None)"
| "step (ExpectColon ms k st) t =
     (if t = TColon then Some (ExpectValue (ObjectFrame ms k # st)) else None)"
| "step (InObject ms st) t =
     (if t = TComma then Some (ExpectKey ms st)
      else if t = TRBrace then Some (deliver (JObj ms) st)
      else None)"
| "step (Finished v) t = None"

fun parseTokens :: "pstate \<Rightarrow> token list \<Rightarrow> json option" where
  "parseTokens p [] = (case p of Finished v \<Rightarrow> Some v | _ \<Rightarrow> None)"
| "parseTokens p (t # ts) =
     (case step p t of None \<Rightarrow> None | Some p' \<Rightarrow> parseTokens p' ts)"

text \<open>
  Modelled from the spec: \<^verbatim>\<open>JSON.parse\<close> is a function of the platform and is not among
  the sources. The spec has the stored text deserialised at initialisation; the function
  is written here after ECMA-404 and ECMA-262. It accepts the texts of the grammar. The
  number of a literal is kept exact, where the platform rounds it to the nearest double:
  the two agree on the integers of the safe range, and what is proved below of a parsed
  value is proved for values whose numbers are such integers (\<open>safeNumbers\<close>, or the
  well-formed entries).
\<close>

definition JSON_parse :: "jsstring \<Rightarrow> json option" where
  "JSON_parse text =
     (case tokenize text of None \<Rightarrow> None | Some ts \<Rightarrow> parseTokens (ExpectValue []) ts)"

section \<open>The component of \<^verbatim>\<open>App.tsx\<close>\<close>

subsection \<open>Data\<close>

record Reward =
  id_reward :: jsstring
  title :: jsstring
  description :: jsstring
  icon :: jsstring

record HistoryEntry =
  id_entry :: jsstring
  cardNumber :: int
  rewardTitle :: jsstring
  rewardIcon :: jsstring
  timestamp :: int

definition HISTORY_STORAGE_KEY :: jsstring where
  "HISTORY_STORAGE_KEY = js ''reward-history''"

definition HISTORY_LIMIT :: nat where
  "HISTORY_LIMIT = 10"

text \<open>The catalog of lines 24--49. The icons are the code units of the four emoji.\<close>

definition rewards :: "Reward list" where
  "rewards =
     [\<lparr>id_reward = js ''mug'', title = js ''Devsmith Mug'',
       description = js ''Limited ceramic mug for your next caffeine boost.'',
       icon = [0x2615, 0xFE0F]\<rparr>,
      \<lparr>id_reward = js ''coupon'', title = js ''Odoo Development Coupon'',
       description = js ''Apply this coupon toward premium Odoo build time.'',
       icon = [0xD83C, 0xDF9F, 0xFE0F]\<rparr>,
      \<lparr>id_reward = js ''stickers'', title = js ''Sticker Set'',
       description = js ''A playful sticker pack to brighten every device.'',
       icon = [0x2728]\<rparr>,
      \<lparr>id_reward = js ''mystery'', title = js ''Mystery Add-on'',
       description = js ''An extra surprise that appears in your inbox.'',
       icon = [0xD83C, 0xDF81]\<rparr>]"

text \<open>
  The object a \<^verbatim>\<open>HistoryEntry\<close> is at run time: the literal of lines 121--127, its
  properties in the order they are written.
\<close>

definition entryObject :: "HistoryEntry \<Rightarrow> json" where
  "entryObject e =
     JObj [(js ''id'', JStr (id_entry e)),
           (js ''cardNumber'', JNum (cardNumber e) 0),
           (js ''rewardTitle'', JStr (rewardTitle e)),
           (js ''rewardIcon'', JStr (rewardIcon e)),
           (js ''timestamp'', JNum (timestamp e) 0)]"

subsection \<open>State\<close>

text \<open>
  The six \<^verbatim>\<open>useState\<close> cells of lines 72--88 and the store the component writes to.
  \<open>localStorage\<close> is \<open>None\<close> where \<^verbatim>\<open>typeof window === 'undefined'\<close>; where there is a
  window it is a total key-value map, whose \<^verbatim>\<open>getItem\<close>, \<^verbatim>\<open>setItem\<close> and \<^verbatim>\<open>removeItem\<close>
  never throw.

  \<open>historyRef\<close> is the identity of the array held in \<open>history\<close>. React compares the
  dependency of the effect of lines 92--95 with \<^verbatim>\<open>Object.is\<close>, and both calls of
  \<^verbatim>\<open>setHistory\<close> pass an array that was just allocated (the literal of line 140, the
  result of \<^verbatim>\<open>slice\<close> at line 129): a fresh array gets a fresh \<open>historyRef\<close>.

  \<open>selectedCard\<close> is \<open>None\<close> for \<^verbatim>\<open>null\<close> and an integer otherwise (the interface passes
  the indices 0 to 3). \<open>history\<close> is declared \<^verbatim>\<open>HistoryEntry[]\<close>, but holds whatever the
  initialiser returned.
\<close>

record state =
  selectedCard :: "int option"
  currentReward :: "Reward option"
  statusMessage :: jsstring
  isDrawing :: bool
  isModalOpen :: bool
  history :: json
  historyRef :: nat
  localStorage :: "(jsstring \<rightharpoonup> jsstring) option"

text \<open>
  What can be thrown: a \<^verbatim>\<open>TypeError\<close> by the code of the component, and the error by
  which React refuses an object as a child (\<^verbatim>\<open>Objects are not valid as a React child\<close>).
\<close>

datatype error = TypeError | InvalidChild

text \<open>
  What the platform returns to \<^verbatim>\<open>handleDraw\<close>, in the order of the calls: \<^verbatim>\<open>Math.random()\<close>
  at line 117 (a double in \<open>[0, 1)\<close>; its product with 4 is exact), \<^verbatim>\<open>Date.now()\<close> and
  \<^verbatim>\<open>Math.random().toString(16)\<close> at line 122, \<^verbatim>\<open>Date.now()\<close> at line 126.
\<close>

record drawEnv =
  mathRandom1 :: real
  dateNow1 :: int
  mathRandomHex :: jsstring
  dateNow2 :: int

subsection \<open>Initialisation and persistence\<close>

text \<open>The initialiser of lines 79--88. An empty string is falsy, as \<^verbatim>\<open>null\<close> is.\<close>

definition initialHistory :: "(jsstring \<rightharpoonup> jsstring) option \<Rightarrow> json" where
  "initialHistory w =
     (case w of
        None \<Rightarrow> JArr []
      | Some store \<Rightarrow>
          (case store HISTORY_STORAGE_KEY of
             None \<Rightarrow> JArr []
           | Some stored \<Rightarrow>
               if stored = [] then JArr []
               else (case JSON_parse stored of
                       None \<Rightarrow> JArr []
                     | Some v \<Rightarrow> v)))"

text \<open>The effect of lines 92--95.\<close>

definition persistHistory :: "state \<Rightarrow> state" where
  "persistHistory s =
     (case localStorage s of
        None \<Rightarrow> s
      | Some store \<Rightarrow>
          s\<lparr>localStorage := Some (store(HISTORY_STORAGE_KEY \<mapsto> JSON_stringify (history s)))\<rparr>)"

text \<open>
  After a handler has returned React renders again and runs the effect when its
  dependency \<^verbatim>\<open>[history]\<close> has changed.
\<close>

definition runEffects :: "state \<Rightarrow> state \<Rightarrow> state" where
  "runEffects prev next =
     (if historyRef next = historyRef prev then next else persistHistory next)"

subsection \<open>The first render\<close>

text \<open>
  Of the JSX (lines 146--325) the model keeps what can throw, which is what reads the
  history (lines 233--266):
  \<^item> \<^verbatim>\<open>history.length > 0\<close> and \<^verbatim>\<open>history.length === 0\<close>: reading \<^verbatim>\<open>length\<close> throws on
    \<^verbatim>\<open>null\<close>; when the length is not the number 0 the code calls \<^verbatim>\<open>history.map\<close>, which is
    a function on an array only;
  \<^item> the callback of \<^verbatim>\<open>history.map\<close> reads five properties of each entry, which throws on
    \<^verbatim>\<open>null\<close>; \<^verbatim>\<open>key={entry.id}\<close> and \<^verbatim>\<open>new Date(entry.timestamp)\<close> convert their operand to
    a primitive, which throws on an object with a property \<^verbatim>\<open>toString\<close> of its own (a
    JSON value is never a function), also inside an array;
  \<^item> \<^verbatim>\<open>{entry.rewardIcon}\<close>, \<^verbatim>\<open>{entry.rewardTitle}\<close> and \<^verbatim>\<open>{entry.cardNumber}\<close> are children,
    and React refuses an object as a child, also inside an array.
  Nothing else in the JSX depends on a value that comes from the store. The components of
  the \<^verbatim>\<open>motion\<close> library are taken to render their children as React does.
\<close>

fun toPrimitiveThrows :: "json \<Rightarrow> bool" where
  "toPrimitiveThrows (JObj ms) = (js ''toString'' \<in> set (map fst ms))"
| "toPrimitiveThrows (JArr xs) = list_ex toPrimitiveThrows xs"
| "toPrimitiveThrows v = False"

fun validChild :: "json \<Rightarrow> bool" where
  "validChild (JObj ms) = False"
| "validChild (JArr xs) = list_all validChild xs"
| "validChild v = True"

text \<open>
  \<^verbatim>\<open>entry.name\<close> for one of the five names the callback reads, on an entry that is not
  \<^verbatim>\<open>null\<close>: \<open>None\<close> is \<^verbatim>\<open>undefined\<close>, which is what a number, a string, a boolean or an
  array gives for these names.
\<close>

definition entryProperty :: "json \<Rightarrow> jsstring \<Rightarrow> json option" where
  "entryProperty entry name = (case entry of JObj ms \<Rightarrow> map_of ms name | _ \<Rightarrow> None)"

definition entryThrows :: "json \<Rightarrow> bool" where
  "entryThrows entry =
     (entry = JNull
      \<or> (case entryProperty entry (js ''id'') of None \<Rightarrow> False | Some v \<Rightarrow> toPrimitiveThrows v)
      \<or> (case entryProperty entry (js ''timestamp'') of
            None \<Rightarrow> False | Some v \<Rightarrow> toPrimitiveThrows v))"

definition entryChildrenValid :: "json \<Rightarrow> bool" where
  "entryChildrenValid entry =
     ((case entryProperty entry (js ''rewardIcon'') of None \<Rightarrow> True | Some v \<Rightarrow> validChild v)
      \<and> (case entryProperty entry (js ''rewardTitle'') of None \<Rightarrow> True | Some v \<Rightarrow> validChild v)
      \<and> (case entryProperty entry (js ''cardNumber'') of None \<Rightarrow> True | Some v \<Rightarrow> validChild v))"

text \<open>What rendering a history throws, \<open>None\<close> when it throws nothing.\<close>

definition renderThrows :: "json \<Rightarrow> error option" where
  "renderThrows h =
     (case h of
        JNull \<Rightarrow> Some TypeError
      | JBool b \<Rightarrow> Some TypeError
      | JNum m d \<Rightarrow> Some TypeError
      | JStr s \<Rightarrow> if s = [] then None else Some TypeError
      | JObj ms \<Rightarrow>
          (case map_of ms (js ''length'') of
             Some (JNum m d) \<Rightarrow> if m = 0 then None else Some TypeError
           | _ \<Rightarrow> Some TypeError)
      | JArr xs \<Rightarrow>
          if list_ex entryThrows xs then Some TypeError
          else if list_all entryChildrenValid xs then None
          else Some InvalidChild)"

subsection \<open>Mounting\<close>

text \<open>
  The initial values of the state cells, the first render, then its effect. When the
  first render throws, nothing is mounted and no effect runs. \<open>firstCommit\<close> is the state
  in which the component is mounted when the render has returned.
\<close>

definition initialState :: "(jsstring \<rightharpoonup> jsstring) option \<Rightarrow> state" where
  "initialState w =
     \<lparr>selectedCard = None,
      currentReward = None,
      statusMessage = js ''Pick one of the four cards below to begin.'',
      isDrawing = False,
      isModalOpen = False,
      history = initialHistory w,
      historyRef = 0,
      localStorage = w\<rparr>"

definition firstCommit :: "(jsstring \<rightharpoonup> jsstring) option \<Rightarrow> state" where
  "firstCommit w = persistHistory (initialState w)"

definition mount :: "(jsstring \<rightharpoonup> jsstring) option \<Rightarrow> error + state" where
  "mount w =
     (case renderThrows (history (initialState w)) of
        Some e \<Rightarrow> Inl e
      | None \<Rightarrow> Inr (firstCommit w))"

subsection \<open>Handlers\<close>

text \<open>\<^verbatim>\<open>rewards[k]\<close>: \<^verbatim>\<open>undefined\<close> outside the array.\<close>

definition rewardAt :: "int \<Rightarrow> Reward option" where
  "rewardAt k = (if 0 \<le> k \<and> k < int (length rewards) then Some (rewards ! nat k) else None)"

text \<open>
  The spread \<^verbatim>\<open>...prev\<close> of line 128 iterates its operand: the elements of an array, the
  code points of a string; any other value is not iterable.
\<close>

fun codePoints :: "jsstring \<Rightarrow> jsstring list" where
  "codePoints [] = []"
| "codePoints [u] = [[u]]"
| "codePoints (u # v # us) =
     (if isHighSurrogate u \<and> isLowSurrogate v then [u, v] # codePoints us
      else [u] # codePoints (v # us))"

definition spread :: "json \<Rightarrow> json list option" where
  "spread v =
     (case v of
        JArr xs \<Rightarrow> Some xs
      | JStr s \<Rightarrow> Some (map JStr (codePoints s))
      | _ \<Rightarrow> None)"

definition newEntry :: "drawEnv \<Rightarrow> int \<Rightarrow> Reward \<Rightarrow> HistoryEntry" where
  "newEntry env sel reward =
     \<lparr>id_entry = numberToString (dateNow1 env) 0 @ js ''-'' @ drop 2 (mathRandomHex env),
      cardNumber = sel + 1,
      rewardTitle = title reward,
      rewardIcon = icon reward,
      timestamp = dateNow2 env\<rparr>"

text \<open>The updater of lines 120--130, applied to the previous history.\<close>

definition appendEntry :: "drawEnv \<Rightarrow> int \<Rightarrow> Reward option \<Rightarrow> json \<Rightarrow> error + json" where
  "appendEntry env sel reward prev =
     (case reward of
        None \<Rightarrow> Inl TypeError
      | Some r \<Rightarrow>
          (case spread prev of
             None \<Rightarrow> Inl TypeError
           | Some xs \<Rightarrow> Inr (JArr (take HISTORY_LIMIT (entryObject (newEntry env sel r) # xs)))))"

definition handleDraw :: "drawEnv \<Rightarrow> state \<Rightarrow> error + state" where
  "handleDraw env s =
     (case selectedCard s of
        None \<Rightarrow> Inr (s\<lparr>statusMessage := js ''Choose a card first to start the draw.''\<rparr>)
      | Some sel \<Rightarrow>
          (let s1 = s\<lparr>isDrawing := True\<rparr>;
               reward = rewardAt \<lfloor>mathRandom1 env * real (length rewards)\<rfloor>;
               s2 = s1\<lparr>currentReward := reward\<rparr>;
               s3 = s2\<lparr>statusMessage :=
                         js ''You opened Card '' @ numberToString (sel + 1) 0 @ js ''!''\<rparr>
           in case appendEntry env sel reward (history s3) of
                Inl e \<Rightarrow> Inl e
              | Inr h \<Rightarrow>
                  (let s4 = s3\<lparr>history := h, historyRef := Suc (historyRef s3)\<rparr>;
                       s5 = s4\<lparr>isModalOpen := True\<rparr>
                   in Inr (s5\<lparr>isDrawing := False\<rparr>))))"

definition handleCardSelect :: "drawEnv \<Rightarrow> int \<Rightarrow> state \<Rightarrow> error + state" where
  "handleCardSelect env index s =
     (if selectedCard s = Some index then handleDraw env s
      else Inr (s\<lparr>selectedCard := Some index,
                  currentReward := None,
                  statusMessage := js ''Click again to open, or choose another card.''\<rparr>))"

definition handleCloseModal :: "state \<Rightarrow> state" where
  "handleCloseModal s = s\<lparr>isModalOpen := False\<rparr>"

definition handleClearHistory :: "state \<Rightarrow> state" where
  "handleClearHistory s =
     (let s1 = s\<lparr>history := JArr [], historyRef := Suc (historyRef s)\<rparr>
      in case localStorage s1 of
           None \<Rightarrow> s1
         | Some store \<Rightarrow> s1\<lparr>localStorage := Some (store(HISTORY_STORAGE_KEY := None))\<rparr>)"

subsection \<open>Operations\<close>

text \<open>
  An operation is a handler followed by the render it causes. An exception thrown by the
  updater during that render unmounts the component: the operation has no end state.
  The render itself is left out after an operation: a history that has been rendered
  stays one that renders (\<open>renders_fire\<close> and \<open>renders_session\<close> below).
\<close>

definition selectCard :: "drawEnv \<Rightarrow> int \<Rightarrow> state \<Rightarrow> error + state" where
  "selectCard env index s = map_sum id (runEffects s) (handleCardSelect env index s)"

definition draw :: "drawEnv \<Rightarrow> state \<Rightarrow> error + state" where
  "draw env s = map_sum id (runEffects s) (handleDraw env s)"

definition closeModal :: "state \<Rightarrow> state" where
  "closeModal s = runEffects s (handleCloseModal s)"

definition clearHistory :: "state \<Rightarrow> state" where
  "clearHistory s = runEffects s (handleClearHistory s)"

text \<open>Two operations one after the other; the second does not run when the first failed.\<close>

definition andThen :: "error + state \<Rightarrow> (state \<Rightarrow> error + state) \<Rightarrow> error + state" where
  "andThen r f = (case r of Inl e \<Rightarrow> Inl e | Inr s \<Rightarrow> f s)"

subsection \<open>Sequences of operations\<close>

datatype event = SelectCard drawEnv int | Draw drawEnv | CloseModal | ClearHistory

fun fire :: "event \<Rightarrow> state \<Rightarrow> error + state" where
  "fire (SelectCard env i) s = selectCard env i s"
| "fire (Draw env) s = draw env s"
| "fire CloseModal s = Inr (closeModal s)"
| "fire ClearHistory s = Inr (clearHistory s)"

fun fireAll :: "event list \<Rightarrow> state \<Rightarrow> error + state" where
  "fireAll [] s = Inr s"
| "fireAll (ev # evs) s = andThen (fire ev s) (fireAll evs)"

subsection \<open>Well-formed entries\<close>

text \<open>
  The entries the round trip through the store is stated for, in the words of section 3 of
  the spec: a card number from 1 to 4 and an integer time stamp, here an integer in the
  range where a double is exact (\<^verbatim>\<open>Number.isSafeInteger\<close>), which holds every value of
  \<^verbatim>\<open>Date.now()\<close>. The source declares both fields as \<^verbatim>\<open>number\<close>.
\<close>

definition safeInteger :: "int \<Rightarrow> bool" where
  "safeInteger n = (\<bar>n\<bar> \<le> 9007199254740991)"

definition wellFormedEntry :: "HistoryEntry \<Rightarrow> bool" where
  "wellFormedEntry e = (1 \<le> cardNumber e \<and> cardNumber e \<le> 4 \<and> safeInteger (timestamp e))"

subsection \<open>Sample values\<close>

text \<open>
  Values to instantiate the theorems below: a browser with an empty store and card 3
  (index 2) selected, answers of the platform, an entry, and a session of one selection
  and eleven draws.
\<close>

definition exampleEnv :: drawEnv where
  "exampleEnv = \<lparr>mathRandom1 = 1 / 2, dateNow1 = 1700000000000,
                  mathRandomHex = js ''0.8a3f'', dateNow2 = 1700000000001\<rparr>"

definition exampleState :: state where
  "exampleState = (firstCommit (Some Map.empty))\<lparr>selectedCard := Some 2\<rparr>"

definition exampleEntry :: HistoryEntry where
  "exampleEntry =
     \<lparr>id_entry = js ''1700000000000-8a3f'', cardNumber = 3,
      rewardTitle = js ''Sticker Set'', rewardIcon = [0x2728], timestamp = 1700000000001\<rparr>"

definition sampleEvents :: "event list" where
  "sampleEvents = SelectCard exampleEnv 2 # replicate 11 (Draw exampleEnv)"

text \<open>
  A store that holds the text \<^verbatim>\<open>{"length":0}\<close>, the state mounted on it, and that state
  after card 3, and after card 1, has been selected.
\<close>

definition lengthZeroStore :: "(jsstring \<rightharpoonup> jsstring) option" where
  "lengthZeroStore =
     Some (Map.empty(HISTORY_STORAGE_KEY \<mapsto> js ''{'' @ [0x22] @ js ''length'' @ [0x22] @ js '':0}''))"

definition objectHistoryState :: "int \<Rightarrow> state" where
  "objectHistoryState i =
     (firstCommit lengthZeroStore)\<lparr>selectedCard := Some i, currentReward := None,
        statusMessage := js ''Click again to open, or choose another card.''\<rparr>"

subsection \<open>Values with exact numbers\<close>

text \<open>
  The values all of whose numbers are safe integers: on these the exact numbers of the
  model are the doubles of the platform.
\<close>

fun safeNumbers :: "json \<Rightarrow> bool" where
  "safeNumbers (JNum m d) = (d = 0 \<and> safeInteger m)"
| "safeNumbers (JArr xs) = list_all safeNumbers xs"
| "safeNumbers (JObj ms) = list_all (\<lambda>(k, v). safeNumbers v) ms"
| "safeNumbers v = True"

subsection \<open>Notions for the proofs\<close>

text \<open>
  The characters that follow a number in the text of an entry; the tokens of that text;
  the entries whose numbers are printed as plain digits (below \<open>10 ^ 21\<close>); the bound on
  the history that the operations keep.
\<close>

definition endsNumber :: "16 word \<Rightarrow> bool" where
  "endsNumber c = (c = 0x2C \<or> c = 0x7D \<or> c = 0x5D)"

definition entryTokens :: "HistoryEntry \<Rightarrow> token list" where
  "entryTokens e =
     [TLBrace, TString (js ''id''), TColon, TString (id_entry e), TComma,
      TString (js ''cardNumber''), TColon, TNumber (cardNumber e) 0, TComma,
      TString (js ''rewardTitle''), TColon, TString (rewardTitle e), TComma,
      TString (js ''rewardIcon''), TColon, TString (rewardIcon e), TComma,
      TString (js ''timestamp''), TColon, TNumber (timestamp e) 0, TRBrace]"

definition plainNumbers :: "HistoryEntry \<Rightarrow> bool" where
  "plainNumbers e = (\<bar>cardNumber e\<bar> < 10 ^ 21 \<and> \<bar>timestamp e\<bar> < 10 ^ 21)"

definition renders :: "json \<Rightarrow> bool" where
  "renders h = (renderThrows h = None)"

definition historyWithin :: "json \<Rightarrow> bool" where
  "historyWithin v = (case v of JArr h \<Rightarrow> length h \<le> HISTORY_LIMIT | _ \<Rightarrow> False)"

section \<open>Facts about \<^verbatim>\<open>JSON.stringify\<close> and \<^verbatim>\<open>JSON.parse\<close>\<close>

subsection \<open>Integers\<close>

lemma digitsOf_small: "n < 10 \<Longrightarrow> digitsOf n = [digitChar n]"
  by (simp add: digitsOf.simps)

lemma digitsOf_large: "\<not> n < 10 \<Longrightarrow> digitsOf n = digitsOf (n div 10) @ [digitChar (n mod 10)]"
  by (subst digitsOf.simps) simp

lemma below_ten: "k < 10 \<Longrightarrow> k \<in> {0, 1, 2, 3, 4, 5, 6, 7, 8, 9::nat}"
  by auto

lemma isDigit_digitChar: "k < 10 \<Longrightarrow> isDigit (digitChar k)"
  by (drule below_ten) (auto simp: isDigit_def digitChar_def)

lemma digitVal_digitChar: "k < 10 \<Longrightarrow> digitVal (digitChar k) = k"
  by (drule below_ten) (auto simp: digitVal_def digitChar_def)

lemma digitChar_zero: "k < 10 \<Longrightarrow> digitChar k = 0x30 \<longleftrightarrow> k = 0"
  by (drule below_ten) (auto simp: digitChar_def)

lemma digitsOf_not_Nil: "digitsOf n \<noteq> []"
  by (subst digitsOf.simps) simp

lemma isDigit_digitsOf: "list_all isDigit (digitsOf n)"
proof (induction n rule: digitsOf.induct)
  case (1 n)
  show ?case
  proof (cases "n < 10")
    case True
    then show ?thesis by (simp add: digitsOf_small isDigit_digitChar)
  next
    case False
    with 1 show ?thesis by (simp add: digitsOf_large isDigit_digitChar)
  qed
qed

lemma natOfDigits_snoc: "natOfDigits (ds @ [u]) = natOfDigits ds * 10 + digitVal u"
  by (simp add: natOfDigits_def)

lemma natOfDigits_digitsOf: "natOfDigits (digitsOf n) = n"
proof (induction n rule: digitsOf.induct)
  case (1 n)
  show ?case
  proof (cases "n < 10")
    case True
    then show ?thesis by (simp add: digitsOf_small natOfDigits_def digitVal_digitChar)
  next
    case False
    with 1 show ?thesis by (simp add: digitsOf_large natOfDigits_snoc digitVal_digitChar)
  qed
qed

lemma hd_digitsOf: "0 < n \<Longrightarrow> hd (digitsOf n) \<noteq> 0x30"
proof (induction n rule: digitsOf.induct)
  case (1 n)
  show ?case
  proof (cases "n < 10")
    case True
    with 1(2) show ?thesis by (simp add: digitsOf_small digitChar_zero)
  next
    case False
    then have "0 < n div 10" by simp
    with 1(1) False have "hd (digitsOf (n div 10)) \<noteq> 0x30" by simp
    with False show ?thesis by (simp add: digitsOf_large digitsOf_not_Nil)
  qed
qed

lemma length_digitsOf: "n < 10 ^ k \<Longrightarrow> 0 < k \<Longrightarrow> length (digitsOf n) \<le> k"
proof (induction k arbitrary: n)
  case 0
  then show ?case by simp
next
  case (Suc k)
  show ?case
  proof (cases "n < 10")
    case True
    then show ?thesis by (simp add: digitsOf_small)
  next
    case False
    then have "0 < k" using Suc.prems by (cases k) auto
    moreover have "n div 10 < 10 ^ k" using Suc.prems by (simp add: less_mult_imp_div_less mult.commute)
    ultimately have "length (digitsOf (n div 10)) \<le> k" using Suc.IH by simp
    with False show ?thesis by (simp add: digitsOf_large)
  qed
qed

lemma stripTrailingZeros_pad:
  "stripTrailingZeros ds @ replicate (length ds - length (stripTrailingZeros ds)) 0x30 = ds"
proof -
  let ?P = "\<lambda>u::16 word. u = 0x30"
  let ?r = "rev ds"
  have tw: "takeWhile ?P ?r = replicate (length (takeWhile ?P ?r)) 0x30"
    by (rule replicate_length_same [symmetric]) (auto dest: set_takeWhileD)
  have len: "length ds - length (dropWhile ?P ?r) = length (takeWhile ?P ?r)"
  proof -
    have "length (takeWhile ?P ?r) + length (dropWhile ?P ?r) = length ?r"
      by (metis length_append takeWhile_dropWhile_id)
    then show ?thesis by simp
  qed
  have "ds = rev (takeWhile ?P ?r @ dropWhile ?P ?r)" by simp
  also have "\<dots> = rev (dropWhile ?P ?r) @ rev (takeWhile ?P ?r)" by (simp only: rev_append)
  also have "rev (takeWhile ?P ?r) = replicate (length (takeWhile ?P ?r)) 0x30"
    by (subst tw) simp
  finally show ?thesis by (simp add: stripTrailingZeros_def len)
qed

lemma length_stripTrailingZeros: "length (stripTrailingZeros ds) \<le> length ds"
  by (simp add: stripTrailingZeros_def length_dropWhile_le [of _ "rev ds", simplified])

lemma numberToString_int:
  assumes "\<bar>n\<bar> < 10 ^ 21"
  shows "numberToString n 0 = (if n < 0 then [0x2D] else []) @ digitsOf (nat \<bar>n\<bar>)"
proof (cases "n = 0")
  case True
  then show ?thesis
    by (simp add: numberToString_def digitsOf_small digitChar_def js_def)
next
  case False
  let ?ds = "digitsOf (nat \<bar>n\<bar>)"
  let ?s = "stripTrailingZeros ?ds"
  have "nat \<bar>n\<bar> < 10 ^ 21" using assms by (simp add: nat_less_iff)
  then have l21: "length ?ds \<le> 21" by (rule length_digitsOf) simp
  have ks: "length ?s \<le> length ?ds" by (rule length_stripTrailingZeros)
  have "?s @ replicate (nat (int (length ?ds) - int (length ?s))) 0x30 = ?ds"
    using stripTrailingZeros_pad [of ?ds] ks by (simp add: nat_diff_distrib')
  with False l21 ks show ?thesis
    by (simp add: numberToString_def Let_def js_def)
qed

lemma endsNumber_facts:
  "endsNumber c \<Longrightarrow> \<not> isDigit c" "endsNumber c \<Longrightarrow> c \<noteq> 0x2E"
  "endsNumber c \<Longrightarrow> c \<noteq> 0x65" "endsNumber c \<Longrightarrow> c \<noteq> 0x45"
  by (auto simp: endsNumber_def isDigit_def)

lemma takeWhile_digits:
  "list_all isDigit ds \<Longrightarrow> \<not> isDigit c \<Longrightarrow> takeWhile isDigit (ds @ c # xs) = ds"
  by (induction ds) auto

lemma dropWhile_digits:
  "list_all isDigit ds \<Longrightarrow> \<not> isDigit c \<Longrightarrow> dropWhile isDigit (ds @ c # xs) = c # xs"
  by (induction ds) auto

lemma lexInt_digitsOf:
  assumes "endsNumber c"
  shows "lexInt (digitsOf n @ c # xs) = Some (digitsOf n, c # xs)"
proof (cases "n = 0")
  case True
  then show ?thesis by (simp add: digitsOf_small digitChar_def lexInt_def)
next
  case False
  obtain u us where ds: "digitsOf n = u # us"
    using digitsOf_not_Nil [of n] by (cases "digitsOf n") auto
  have "u \<noteq> 0x30" using hd_digitsOf [of n] False ds by simp
  moreover have "isDigit u" using isDigit_digitsOf [of n] ds by simp
  moreover have "takeWhile isDigit (digitsOf n @ c # xs) = digitsOf n"
    "dropWhile isDigit (digitsOf n @ c # xs) = c # xs"
    using takeWhile_digits dropWhile_digits isDigit_digitsOf endsNumber_facts(1) [OF assms]
    by blast+
  ultimately show ?thesis using ds by (simp add: lexInt_def)
qed

lemma lexNumber_int:
  assumes "endsNumber c"
  shows "lexNumber ((if n < 0 then [0x2D] else []) @ digitsOf (nat \<bar>n\<bar>) @ c # xs)
           = Some ((n, 0), c # xs)"
proof -
  let ?ds = "digitsOf (nat \<bar>n\<bar>)"
  obtain u us where ds: "?ds = u # us"
    using digitsOf_not_Nil [of "nat \<bar>n\<bar>"] by (cases ?ds) auto
  have "isDigit u" using isDigit_digitsOf [of "nat \<bar>n\<bar>"] ds by simp
  then have u: "u \<noteq> 0x2D" by (auto simp: isDigit_def)
  have frac: "lexFrac (c # xs) = Some ([], c # xs)"
    using endsNumber_facts [OF assms] by (simp add: lexFrac_def)
  have ex: "lexExp (c # xs) = Some (0, c # xs)"
    using endsNumber_facts [OF assms] by (simp add: lexExp_def)
  have mk: "mkNumber (n < 0) (natOfDigits ?ds) 0 = (n, 0)"
    by (simp add: mkNumber_def natOfDigits_digitsOf)
  show ?thesis
  proof (cases "n < 0")
    case True
    then show ?thesis
      using lexInt_digitsOf [OF assms, of "nat \<bar>n\<bar>" xs] frac ex mk
      by (simp add: lexNumber_def)
  next
    case False
    then show ?thesis
      using lexInt_digitsOf [OF assms, of "nat \<bar>n\<bar>" xs] frac ex mk u ds
      by (simp add: lexNumber_def)
  qed
qed

lemma tokenize_number:
  assumes "\<bar>n\<bar> < 10 ^ 21" "endsNumber c"
  shows "tokenize (numberToString n 0 @ c # xs)
           = map_option ((#) (TNumber n 0)) (tokenize (c # xs))"
proof -
  let ?ds = "digitsOf (nat \<bar>n\<bar>)"
  let ?text = "(if n < 0 then [0x2D] else []) @ ?ds @ c # xs"
  obtain u us where shape: "?text = u # us" and u: "u = 0x2D \<or> isDigit u"
  proof (cases "n < 0")
    case True
    then show ?thesis using that by simp
  next
    case False
    obtain d ds' where "?ds = d # ds'"
      using digitsOf_not_Nil [of "nat \<bar>n\<bar>"] by (cases ?ds) auto
    moreover from this have "isDigit d" using isDigit_digitsOf [of "nat \<bar>n\<bar>"] by simp
    ultimately show ?thesis using that False by simp
  qed
  have lex: "lexToken u us = Some (Some (TNumber n 0), c # xs)"
  proof -
    have "lexNumber (u # us) = Some ((n, 0), c # xs)"
      using lexNumber_int [OF assms(2), of n xs] shape by simp
    moreover have "\<not> isWhitespace u" "u \<noteq> 0x5B" "u \<noteq> 0x5D" "u \<noteq> 0x7B" "u \<noteq> 0x7D"
      "u \<noteq> 0x2C" "u \<noteq> 0x3A" "u \<noteq> 0x22"
      using u by (auto simp: isWhitespace_def isDigit_def)
    ultimately show ?thesis using u by (simp add: lexToken_def)
  qed
  have "numberToString n 0 @ c # xs = u # us"
    using numberToString_int [OF assms(1)] shape by simp
  then show ?thesis using lex by simp
qed

lemma tokenize_punct:
  "tokenize (0x5B # xs) = map_option ((#) TLBrack) (tokenize xs)"
  "tokenize (0x5D # xs) = map_option ((#) TRBrack) (tokenize xs)"
  "tokenize (0x7B # xs) = map_option ((#) TLBrace) (tokenize xs)"
  "tokenize (0x7D # xs) = map_option ((#) TRBrace) (tokenize xs)"
  "tokenize (0x2C # xs) = map_option ((#) TComma) (tokenize xs)"
  "tokenize (0x3A # xs) = map_option ((#) TColon) (tokenize xs)"
  by (simp_all add: lexToken_def isWhitespace_def)

subsection \<open>Strings\<close>

lemma hexVal_hexChar:
  assumes "k < 16"
  shows "hexVal (hexChar k) = Some k"
proof (cases "k < 10")
  case True
  then have "unat (of_nat (48 + k) :: 16 word) = 48 + k" by (subst unat_of_nat) simp
  with True show ?thesis by (simp add: hexVal_def hexChar_def word_le_nat_alt)
next
  case False
  from assms have "unat (of_nat (87 + k) :: 16 word) = 87 + k" by (subst unat_of_nat) simp
  with False assms show ?thesis by (simp add: hexVal_def hexChar_def word_le_nat_alt)
qed

lemma hex_digits_sum:
  "4096 * (n div 4096) + 256 * (n div 256 mod 16) + 16 * (n div 16 mod 16) + n mod 16 = (n::nat)"
proof -
  define a where "a = n div 16"
  define b where "b = n div 256"
  define c where "c = n div 4096"
  have ba: "b = a div 16" unfolding a_def b_def by (simp add: div_mult2_eq)
  have cb: "c = b div 16" unfolding b_def c_def by (simp add: div_mult2_eq)
  have "n = 16 * a + n mod 16" unfolding a_def by simp
  moreover have "a = 16 * b + a mod 16" unfolding ba by simp
  moreover have "b = 16 * c + b mod 16" unfolding cb by simp
  ultimately have "4096 * c + 256 * (b mod 16) + 16 * (a mod 16) + n mod 16 = n"
    by linarith
  then show ?thesis unfolding a_def b_def c_def .
qed

lemma hex4_unicodeEscape:
  "hex4 (hexChar (unat u div 4096)) (hexChar (unat u div 256 mod 16))
        (hexChar (unat u div 16 mod 16)) (hexChar (unat u mod 16)) = Some (u :: 16 word)"
proof -
  have "unat u < 65536" using unsigned_less [of u, where ?'a = nat] by simp
  then have "unat u div 4096 < 16" by simp
  then show ?thesis
    by (simp add: hex4_def hexVal_hexChar hex_digits_sum)
qed

lemma lexString_unicodeEscape:
  "lexString (unicodeEscape u @ xs) = consChar u (lexString xs)"
  by (simp add: unicodeEscape_def Let_def hex4_unicodeEscape)

lemma lexString_escapeUnit:
  "lexString (escapeUnit u @ xs) = consChar u (lexString xs)"
proof -
  consider "u = 0x08" | "u = 0x09" | "u = 0x0A" | "u = 0x0C" | "u = 0x0D" | "u = 0x22"
    | "u = 0x5C"
    | "u \<notin> {0x08, 0x09, 0x0A, 0x0C, 0x0D, 0x22, 0x5C}"
      "u < 0x20 \<or> isHighSurrogate u \<or> isLowSurrogate u"
    | "u \<notin> {0x08, 0x09, 0x0A, 0x0C, 0x0D, 0x22, 0x5C}"
      "\<not> (u < 0x20 \<or> isHighSurrogate u \<or> isLowSurrogate u)"
    by blast
  then show ?thesis
  proof cases
    case 8
    then have "escapeUnit u = unicodeEscape u" by (simp add: escapeUnit_def)
    then show ?thesis by (simp only: lexString_unicodeEscape)
  next
    case 9
    then have "escapeUnit u = [u]" by (simp add: escapeUnit_def)
    with 9 show ?thesis by simp
  qed (simp_all add: escapeUnit_def unescape_def)
qed

lemma lexString_plain:
  "u \<noteq> 0x22 \<Longrightarrow> u \<noteq> 0x5C \<Longrightarrow> \<not> u < 0x20 \<Longrightarrow> lexString (u # xs) = consChar u (lexString xs)"
  by simp

lemma lexString_surrogate:
  assumes "isHighSurrogate u \<or> isLowSurrogate u"
  shows "lexString (u # xs) = consChar u (lexString xs)"
proof (rule lexString_plain)
  show "u \<noteq> 0x22" "u \<noteq> 0x5C" "\<not> u < 0x20"
    using assms
    by (auto simp: isHighSurrogate_def isLowSurrogate_def word_le_nat_alt word_less_nat_alt)
qed

lemma lexString_quoteChars:
  "lexString (quoteChars s @ 0x22 # rest) = Some (s, rest)"
proof (induction s rule: quoteChars.induct)
  case 1
  show ?case by simp
next
  case (2 u)
  show ?case by (simp add: lexString_escapeUnit consChar_def)
next
  case (3 u v us)
  show ?case
  proof (cases "isHighSurrogate u \<and> isLowSurrogate v")
    case True
    then have "quoteChars (u # v # us) @ 0x22 # rest = u # v # (quoteChars us @ 0x22 # rest)"
      by (simp del: lexString.simps)
    moreover have "lexString (u # v # (quoteChars us @ 0x22 # rest))
        = consChar u (consChar v (lexString (quoteChars us @ 0x22 # rest)))"
      using True lexString_surrogate [of u] lexString_surrogate [of v] by presburger
    ultimately show ?thesis using 3(1) True by (simp add: consChar_def)
  next
    case False
    then have "quoteChars (u # v # us) @ 0x22 # rest
        = escapeUnit u @ (quoteChars (v # us) @ 0x22 # rest)"
      by (simp only: quoteChars.simps False if_False append_assoc)
    then show ?thesis using 3(2) False
      by (simp only: lexString_escapeUnit) (simp add: consChar_def)
  qed
qed

lemma tokenize_string:
  "tokenize (quoteJSONString s @ xs) = map_option ((#) (TString s)) (tokenize xs)"
  by (simp add: quoteJSONString_def lexToken_def isWhitespace_def lexString_quoteChars)

subsection \<open>Arrays of entries\<close>

lemma stringify_entry:
  "JSON_stringify (entryObject e) =
     0x7B # quoteJSONString (js ''id'') @ 0x3A # quoteJSONString (id_entry e) @
     0x2C # quoteJSONString (js ''cardNumber'') @ 0x3A # numberToString (cardNumber e) 0 @
     0x2C # quoteJSONString (js ''rewardTitle'') @ 0x3A # quoteJSONString (rewardTitle e) @
     0x2C # quoteJSONString (js ''rewardIcon'') @ 0x3A # quoteJSONString (rewardIcon e) @
     0x2C # quoteJSONString (js ''timestamp'') @ 0x3A # numberToString (timestamp e) 0 @ [0x7D]"
  by (simp add: entryObject_def)

lemma tokenize_entry:
  assumes "plainNumbers e" "tokenize xs = Some ts"
  shows "tokenize (JSON_stringify (entryObject e) @ xs) = Some (entryTokens e @ ts)"
proof -
  have n1: "tokenize (numberToString (cardNumber e) 0 @ 0x2C # ys)
      = map_option ((#) (TNumber (cardNumber e) 0)) (tokenize (0x2C # ys))" for ys
    using assms(1) by (intro tokenize_number) (simp_all add: plainNumbers_def endsNumber_def)
  have n2: "tokenize (numberToString (timestamp e) 0 @ 0x7D # ys)
      = map_option ((#) (TNumber (timestamp e) 0)) (tokenize (0x7D # ys))" for ys
    using assms(1) by (intro tokenize_number) (simp_all add: plainNumbers_def endsNumber_def)
  show ?thesis
    unfolding stringify_entry
    by (simp del: tokenize.simps
        add: tokenize_punct tokenize_string n1 n2 assms(2) entryTokens_def)
qed

lemma parse_entry:
  "parseTokens (ObjectOpen st) (tl (entryTokens e) @ ts)
     = parseTokens (deliver (entryObject e) st) ts"
  by (simp add: entryTokens_def entryObject_def defineProperty_def arrayIndex_def js_def
      isDigit_def)

lemma commaSep_Cons: "commaSep (x # xs) = x @ concat (map ((#) 0x2C) xs)"
  by (induction xs arbitrary: x) simp_all

lemma tokenize_entries:
  assumes "list_all plainNumbers es" "tokenize xs = Some ts"
  shows "tokenize (concat (map ((#) 0x2C) (map (\<lambda>e. JSON_stringify (entryObject e)) es)) @ 0x5D # xs)
           = Some (concat (map (\<lambda>e. TComma # entryTokens e) es) @ TRBrack # ts)"
  using assms(1)
proof (induction es)
  case Nil
  show ?case by (simp del: tokenize.simps add: tokenize_punct assms(2))
next
  case (Cons e es)
  then have "tokenize (concat (map ((#) 0x2C) (map (\<lambda>e. JSON_stringify (entryObject e)) es)) @ 0x5D # xs)
      = Some (concat (map (\<lambda>e. TComma # entryTokens e) es) @ TRBrack # ts)"
    and "plainNumbers e" by simp_all
  then show ?case
    by (simp del: tokenize.simps add: tokenize_punct tokenize_entry)
qed

lemma parse_entries:
  "parseTokens (InArray acc st) (concat (map (\<lambda>e. TComma # entryTokens e) es) @ TRBrack # ts)
     = parseTokens (deliver (JArr (acc @ map entryObject es)) st) ts"
proof (induction es arbitrary: acc)
  case Nil
  show ?case by simp
next
  case (Cons e es)
  have "parseTokens (InArray acc st) (TComma # entryTokens e @ zs)
      = parseTokens (InArray (acc @ [entryObject e]) st) zs" for zs
  proof -
    have "parseTokens (InArray acc st) (TComma # entryTokens e @ zs)
        = parseTokens (ObjectOpen (ArrayFrame acc # st)) (tl (entryTokens e) @ zs)"
      by (simp add: entryTokens_def)
    then show ?thesis by (simp only: parse_entry deliver.simps)
  qed
  then show ?case using Cons [of "acc @ [entryObject e]"] by simp
qed

lemma parse_stringify_entries:
  assumes "list_all plainNumbers es"
  shows "JSON_parse (JSON_stringify (JArr (map entryObject es))) = Some (JArr (map entryObject es))"
proof (cases es)
  case Nil
  then show ?thesis
    by (simp add: JSON_parse_def lexToken_def isWhitespace_def)
next
  case (Cons e es')
  have pe: "plainNumbers e" and pes: "list_all plainNumbers es'"
    using assms Cons by simp_all
  have tail: "tokenize (concat (map ((#) 0x2C) (map (\<lambda>e. JSON_stringify (entryObject e)) es')) @ [0x5D])
      = Some (concat (map (\<lambda>e. TComma # entryTokens e) es') @ [TRBrack])"
    using tokenize_entries [OF pes, of "[]" "[]"] by simp
  have "JSON_stringify (JArr (map entryObject es))
      = 0x5B # JSON_stringify (entryObject e)
          @ concat (map ((#) 0x2C) (map (\<lambda>e. JSON_stringify (entryObject e)) es')) @ [0x5D]"
    using Cons by (simp add: commaSep_Cons comp_def del: JSON_stringify.simps(6))
  then have toks: "tokenize (JSON_stringify (JArr (map entryObject es)))
      = Some (TLBrack # entryTokens e @ concat (map (\<lambda>e. TComma # entryTokens e) es') @ [TRBrack])"
    using tokenize_entry [OF pe tail] by (simp del: tokenize.simps add: tokenize_punct)
  have "parseTokens (ExpectValue []) (TLBrack # entryTokens e
          @ concat (map (\<lambda>e. TComma # entryTokens e) es') @ [TRBrack])
      = parseTokens (ObjectOpen [ArrayFrame []]) (tl (entryTokens e)
          @ concat (map (\<lambda>e. TComma # entryTokens e) es') @ [TRBrack])"
    by (simp add: entryTokens_def)
  also have "\<dots> = parseTokens (InArray [entryObject e] [])
          (concat (map (\<lambda>e. TComma # entryTokens e) es') @ [TRBrack])"
    by (simp only: parse_entry deliver.simps append_Nil)
  also have "\<dots> = Some (JArr (map entryObject es))"
    using parse_entries [of "[entryObject e]" "[]" es' "[]"] Cons by simp
  finally show ?thesis using toks by (simp add: JSON_parse_def)
qed

section \<open>Facts about the operations\<close>

lemma JSON_parse_Nil: "JSON_parse [] = None"
  by (simp add: JSON_parse_def)

lemma history_firstCommit: "history (firstCommit w) = initialHistory w"
  by (simp add: firstCommit_def persistHistory_def initialState_def split: option.splits)

lemma selectedCard_firstCommit: "selectedCard (firstCommit w) = None"
  by (simp add: firstCommit_def persistHistory_def initialState_def split: option.splits)

lemma mount_renders: "renders (initialHistory w) \<Longrightarrow> mount w = Inr (firstCommit w)"
  by (simp add: mount_def renders_def initialState_def)

lemma renders_empty: "renders (JArr [])"
  by (simp add: renders_def renderThrows_def)

lemma rewardAt_floor:
  assumes "0 \<le> x" "x < 1"
  shows "rewardAt \<lfloor>x * real (length rewards)\<rfloor> = Some (rewards ! nat \<lfloor>x * 4\<rfloor>)"
    and "rewards ! nat \<lfloor>x * 4\<rfloor> \<in> set rewards"
proof -
  have len: "length rewards = 4" by (simp add: rewards_def)
  have "0 \<le> \<lfloor>x * 4\<rfloor>" "\<lfloor>x * 4\<rfloor> < 4" using assms by linarith+
  then show "rewardAt \<lfloor>x * real (length rewards)\<rfloor> = Some (rewards ! nat \<lfloor>x * 4\<rfloor>)"
    by (simp add: rewardAt_def len)
  have "nat \<lfloor>x * 4\<rfloor> < length rewards"
    using \<open>0 \<le> \<lfloor>x * 4\<rfloor>\<close> \<open>\<lfloor>x * 4\<rfloor> < 4\<close> len by linarith
  then show "rewards ! nat \<lfloor>x * 4\<rfloor> \<in> set rewards" by simp
qed

lemma handleDraw_selected:
  assumes "selectedCard s = Some i" "spread (history s) = Some h"
    "0 \<le> mathRandom1 env" "mathRandom1 env < 1"
  shows "handleDraw env s =
     Inr (s\<lparr>currentReward := Some (rewards ! nat \<lfloor>mathRandom1 env * 4\<rfloor>),
            statusMessage := js ''You opened Card '' @ numberToString (i + 1) 0 @ js ''!'',
            history := JArr (take HISTORY_LIMIT
               (entryObject (newEntry env i (rewards ! nat \<lfloor>mathRandom1 env * 4\<rfloor>)) # h)),
            historyRef := Suc (historyRef s),
            isModalOpen := True,
            isDrawing := False\<rparr>)"
  using assms rewardAt_floor(1) [OF assms(3,4)]
  by (simp add: handleDraw_def Let_def appendEntry_def)

lemma draw_selected_eq:
  assumes "selectedCard s = Some i" "spread (history s) = Some h"
    "0 \<le> mathRandom1 env" "mathRandom1 env < 1"
  shows "draw env s =
     Inr (persistHistory (s\<lparr>currentReward := Some (rewards ! nat \<lfloor>mathRandom1 env * 4\<rfloor>),
            statusMessage := js ''You opened Card '' @ numberToString (i + 1) 0 @ js ''!'',
            history := JArr (take HISTORY_LIMIT
               (entryObject (newEntry env i (rewards ! nat \<lfloor>mathRandom1 env * 4\<rfloor>)) # h)),
            historyRef := Suc (historyRef s),
            isModalOpen := True,
            isDrawing := False\<rparr>))"
  by (simp add: draw_def handleDraw_selected [OF assms] runEffects_def)

lemma persistHistory_fields [simp]:
  "selectedCard (persistHistory s) = selectedCard s"
  "currentReward (persistHistory s) = currentReward s"
  "statusMessage (persistHistory s) = statusMessage s"
  "isDrawing (persistHistory s) = isDrawing s"
  "isModalOpen (persistHistory s) = isModalOpen s"
  "history (persistHistory s) = history s"
  "historyRef (persistHistory s) = historyRef s"
  by (simp_all add: persistHistory_def split: option.splits)

lemma selectCard_selected: "selectedCard s = Some i \<Longrightarrow> selectCard env i s = draw env s"
  by (simp add: selectCard_def draw_def handleCardSelect_def)

lemma handleDraw_selectedCard:
  "handleDraw env s = Inr s' \<Longrightarrow> selectedCard s' = selectedCard s"
  by (auto simp: handleDraw_def Let_def split: option.splits sum.splits)

lemma runEffects_selectedCard [simp]: "selectedCard (runEffects s s') = selectedCard s'"
  by (simp add: runEffects_def)

lemma selectCard_selects:
  "selectCard env i s = Inr s' \<Longrightarrow> selectedCard s' = Some i"
  by (auto simp: selectCard_def handleCardSelect_def map_sum_def
      dest: handleDraw_selectedCard split: if_splits sum.splits)

lemma initialHistory_empty_store: "initialHistory (Some Map.empty) = JArr []"
  by (simp add: initialHistory_def)

lemma spread_array: "spread (JArr h) = Some h"
  by (simp add: spread_def)

lemma exampleState_facts:
  "selectedCard exampleState = Some 2" "spread (history exampleState) = Some []"
  "0 \<le> mathRandom1 exampleEnv" "mathRandom1 exampleEnv < 1"
  by (simp_all add: exampleState_def exampleEnv_def history_firstCommit
      initialHistory_empty_store spread_array)

lemma mount_empty_store: "mount (Some Map.empty) = Inr (firstCommit (Some Map.empty))"
  by (simp add: mount_renders initialHistory_empty_store renders_empty)

lemma wellFormed_plainNumbers: "wellFormedEntry e \<Longrightarrow> plainNumbers e"
  by (simp add: wellFormedEntry_def plainNumbers_def safeInteger_def)

lemma list_all_wellFormed_plainNumbers:
  "list_all wellFormedEntry es \<Longrightarrow> list_all plainNumbers es"
  by (induction es) (simp_all add: wellFormed_plainNumbers)

lemma initialHistory_stored:
  "initialHistory (Some (store(HISTORY_STORAGE_KEY \<mapsto> stored)))
     = (case JSON_parse stored of None \<Rightarrow> JArr [] | Some v \<Rightarrow> v)"
  by (simp add: initialHistory_def JSON_parse_Nil)

lemma initialHistory_entries:
  assumes "list_all plainNumbers es"
  shows "initialHistory (Some (store(HISTORY_STORAGE_KEY \<mapsto> JSON_stringify (JArr (map entryObject es)))))
           = JArr (map entryObject es)"
  unfolding initialHistory_stored parse_stringify_entries [OF assms] by simp

lemma historyWithin_handleDraw:
  assumes "handleDraw env s = Inr s'" "historyWithin (history s)"
  shows "historyWithin (history s')"
proof (cases "selectedCard s")
  case None
  with assms show ?thesis by (auto simp: handleDraw_def)
next
  case (Some sel)
  with assms(1) obtain r xs where
    "history s' = JArr (take HISTORY_LIMIT (entryObject (newEntry env sel r) # xs))"
    by (auto simp: handleDraw_def Let_def appendEntry_def split: option.splits sum.splits)
  then show ?thesis by (simp add: historyWithin_def)
qed

lemma history_runEffects [simp]: "history (runEffects s s') = history s'"
  by (simp add: runEffects_def)

lemma historyWithin_fire:
  assumes "fire ev s = Inr s'" "historyWithin (history s)"
  shows "historyWithin (history s')"
proof (cases ev)
  case (SelectCard env i)
  with assms show ?thesis
    by (auto simp: selectCard_def handleCardSelect_def map_sum_def
        dest: historyWithin_handleDraw split: if_splits sum.splits)
next
  case (Draw env)
  with assms show ?thesis
    by (auto simp: draw_def map_sum_def dest: historyWithin_handleDraw split: sum.splits)
next
  case CloseModal
  with assms show ?thesis by (auto simp: closeModal_def handleCloseModal_def)
next
  case ClearHistory
  with assms show ?thesis
    by (auto simp: clearHistory_def handleClearHistory_def Let_def historyWithin_def
        split: option.splits)
qed

lemma historyWithin_fireAll:
  "fireAll evs s = Inr s' \<Longrightarrow> historyWithin (history s) \<Longrightarrow> historyWithin (history s')"
proof (induction evs arbitrary: s)
  case Nil
  then show ?case by simp
next
  case (Cons ev evs)
  from Cons.prems(1) obtain s1 where "fire ev s = Inr s1" "fireAll evs s1 = Inr s'"
    by (auto simp: andThen_def split: sum.splits)
  with Cons.IH Cons.prems(2) historyWithin_fire show ?case by blast
qed

lemma draws_succeed:
  assumes "selectedCard s = Some i" "history s = JArr h"
    "0 \<le> mathRandom1 env" "mathRandom1 env < 1"
  shows "\<exists>s'. fireAll (replicate n (Draw env)) s = Inr s'"
  using assms(1,2)
proof (induction n arbitrary: s h)
  case 0
  show ?case by simp
next
  case (Suc n)
  have "spread (history s) = Some h" using Suc.prems(2) by (simp add: spread_array)
  then obtain s1 h1 where "draw env s = Inr s1" "selectedCard s1 = Some i" "history s1 = JArr h1"
    using draw_selected_eq [OF Suc.prems(1) _ assms(3,4)] Suc.prems(1) by simp
  with Suc.IH show ?case by (simp add: andThen_def)
qed

lemma sampleEvents_succeed: "\<exists>s. fireAll sampleEvents (firstCommit (Some Map.empty)) = Inr s"
proof -
  let ?s1 = "(firstCommit (Some Map.empty))\<lparr>selectedCard := Some 2, currentReward := None,
      statusMessage := js ''Click again to open, or choose another card.''\<rparr>"
  have "selectCard exampleEnv 2 (firstCommit (Some Map.empty)) = Inr ?s1"
    by (simp add: selectCard_def handleCardSelect_def runEffects_def selectedCard_firstCommit)
  moreover have "\<exists>s. fireAll (replicate 11 (Draw exampleEnv)) ?s1 = Inr s"
    by (rule draws_succeed [where i = 2 and h = "[]"])
      (simp_all add: history_firstCommit initialHistory_empty_store exampleEnv_def)
  ultimately show ?thesis by (simp add: sampleEvents_def andThen_def)
qed

subsection \<open>What renders\<close>

lemma renders_array:
  "renders (JArr xs) \<longleftrightarrow> \<not> list_ex entryThrows xs \<and> list_all entryChildrenValid xs"
  by (simp add: renders_def renderThrows_def)

lemma entryObject_renders:
  "\<not> entryThrows (entryObject e)" "entryChildrenValid (entryObject e)"
  by (simp_all add: entryThrows_def entryChildrenValid_def entryProperty_def entryObject_def
      js_def)

lemma renders_entries: "renders (JArr (map entryObject es))"
  by (simp add: renders_array list_ex_iff list_all_iff entryObject_renders)

lemma renders_after_spread:
  assumes "renders h" "spread h = Some xs"
  shows "renders (JArr (take n (entryObject e # xs)))"
proof (cases h)
  case (JArr ys)
  with assms have "xs = ys" "\<not> list_ex entryThrows ys" "list_all entryChildrenValid ys"
    by (simp_all add: spread_def renders_array)
  then show ?thesis
    by (cases n) (auto simp: renders_array list_ex_iff list_all_iff entryObject_renders
        dest: in_set_takeD)
next
  case (JStr t)
  with assms have "xs = []" by (simp add: spread_def renders_def renderThrows_def split: if_splits)
  then show ?thesis
    by (cases n) (simp_all add: renders_array entryObject_renders)
qed (use assms in \<open>simp_all add: spread_def\<close>)

lemma renders_handleDraw:
  assumes "handleDraw env s = Inr s'" "renders (history s)"
  shows "renders (history s')"
proof (cases "selectedCard s")
  case None
  with assms show ?thesis by (auto simp: handleDraw_def)
next
  case (Some sel)
  with assms(1) obtain r xs where "spread (history s) = Some xs"
    "history s' = JArr (take HISTORY_LIMIT (entryObject (newEntry env sel r) # xs))"
    by (auto simp: handleDraw_def Let_def appendEntry_def split: option.splits sum.splits)
  then show ?thesis using renders_after_spread [OF assms(2)] by simp
qed

lemma renders_fire:
  assumes "fire ev s = Inr s'" "renders (history s)"
  shows "renders (history s')"
proof (cases ev)
  case (SelectCard env i)
  with assms show ?thesis
    by (auto simp: selectCard_def handleCardSelect_def map_sum_def
        dest: renders_handleDraw split: if_splits sum.splits)
next
  case (Draw env)
  with assms show ?thesis
    by (auto simp: draw_def map_sum_def dest: renders_handleDraw split: sum.splits)
next
  case CloseModal
  with assms show ?thesis by (auto simp: closeModal_def handleCloseModal_def)
next
  case ClearHistory
  with assms show ?thesis
    by (auto simp: clearHistory_def handleClearHistory_def Let_def renders_empty
        split: option.splits)
qed

lemma renders_fireAll:
  "fireAll evs s = Inr s' \<Longrightarrow> renders (history s) \<Longrightarrow> renders (history s')"
proof (induction evs arbitrary: s)
  case Nil
  then show ?case by simp
next
  case (Cons ev evs)
  from Cons.prems(1) obtain s1 where "fire ev s = Inr s1" "fireAll evs s1 = Inr s'"
    by (auto simp: andThen_def split: sum.splits)
  with Cons.IH Cons.prems(2) renders_fire show ?case by blast
qed

lemma renders_session:
  assumes "mount w = Inr s0" "fireAll evs s0 = Inr s"
  shows "renders (history s)"
proof -
  from assms(1) have "s0 = firstCommit w" "renders (initialHistory w)"
    by (auto simp: mount_def renders_def initialState_def split: option.splits)
  then have "renders (history s0)" by (simp add: history_firstCommit)
  with assms(2) show ?thesis by (rule renders_fireAll)
qed

lemma parse_length_zero:
  "JSON_parse (js ''{'' @ [0x22] @ js ''length'' @ [0x22] @ js '':0}'')
     = Some (JObj [(js ''length'', JNum 0 0)])"
  by (simp add: JSON_parse_def js_def lexToken_def isWhitespace_def isDigit_def lexNumber_def
      lexInt_def lexFrac_def lexExp_def mkNumber_def natOfDigits_def digitVal_def
      defineProperty_def arrayIndex_def consChar_def)

lemma lengthZero_facts:
  "initialHistory lengthZeroStore = JObj [(js ''length'', JNum 0 0)]"
  "mount lengthZeroStore = Inr (firstCommit lengthZeroStore)"
  "selectCard env i (firstCommit lengthZeroStore) = Inr (objectHistoryState i)"
  "selectedCard (objectHistoryState i) = Some i"
  "draw env (objectHistoryState i) = Inl TypeError"
proof -
  show h: "initialHistory lengthZeroStore = JObj [(js ''length'', JNum 0 0)]"
    unfolding lengthZeroStore_def initialHistory_stored parse_length_zero by simp
  have "renders (initialHistory lengthZeroStore)"
    unfolding h by (simp add: renders_def renderThrows_def)
  then show "mount lengthZeroStore = Inr (firstCommit lengthZeroStore)" by (rule mount_renders)
  show "selectCard env i (firstCommit lengthZeroStore) = Inr (objectHistoryState i)"
    by (simp add: selectCard_def handleCardSelect_def runEffects_def selectedCard_firstCommit
        objectHistoryState_def)
  show "selectedCard (objectHistoryState i) = Some i" by (simp add: objectHistoryState_def)
  show "draw env (objectHistoryState i) = Inl TypeError"
    by (simp add: draw_def handleDraw_def Let_def appendEntry_def spread_def
        objectHistoryState_def history_firstCommit h split: option.splits)
qed

lemma mount_number_throws:
  "mount (Some (Map.empty(HISTORY_STORAGE_KEY \<mapsto> js ''42''))) = Inl TypeError"
  by (simp add: mount_def initialState_def initialHistory_stored renderThrows_def JSON_parse_def
      js_def lexToken_def isWhitespace_def isDigit_def lexNumber_def lexInt_def lexFrac_def
      lexExp_def mkNumber_def natOfDigits_def digitVal_def)

lemma parse_one_two: "JSON_parse (js ''[1,2]'') = Some (JArr [JNum 1 0, JNum 2 0])"
  by (simp add: JSON_parse_def js_def lexToken_def isWhitespace_def isDigit_def lexNumber_def
      lexInt_def lexFrac_def lexExp_def mkNumber_def natOfDigits_def digitVal_def)

lemma parse_not_json: "JSON_parse (js ''not json'') = None"
  by (simp add: JSON_parse_def js_def lexToken_def isWhitespace_def isDigit_def)

lemma renders_numbers: "renders (JArr (map (\<lambda>n. JNum n 0) ns))"
  by (simp add: renders_array list_ex_iff list_all_iff entryThrows_def entryChildrenValid_def
      entryProperty_def)

section \<open>The claims\<close>

text \<open>
  C1. \<^verbatim>\<open>clearHistory()\<close> empties the history in memory. The store does not end without
  the key: \<^verbatim>\<open>removeItem\<close> runs inside the handler, and the effect of lines 92--95 runs
  after the render that follows, because \<^verbatim>\<open>setHistory([])\<close> passed a new array; it writes
  the text \<^verbatim>\<open>[]\<close> under the key again. Where there is a window the key holds \<^verbatim>\<open>[]\<close>
  after the operation, whatever the history was.
\<close>

theorem clearHistory_store:
  "history (clearHistory s) = JArr []
   \<and> localStorage (clearHistory s) =
       map_option (\<lambda>store. store(HISTORY_STORAGE_KEY \<mapsto> js ''[]'')) (localStorage s)"
  by (simp add: clearHistory_def handleClearHistory_def runEffects_def persistHistory_def
      Let_def js_def split: option.splits)

text \<open>
  C2. (amended) Initialisation takes the stored text through \<^verbatim>\<open>JSON.parse\<close> and checks
  no shape. A text that is not JSON gives the empty history and the component mounts. A
  text that is JSON, with a value the first render displays and numbers that are safe
  integers, gives that value as the history of the mounted component. The statement is
  silent on the values the first render throws on.
\<close>

theorem initial_history_adopts_parsed_value:
  assumes "JSON_parse stored = None
         \<or> (\<exists>v. JSON_parse stored = Some v \<and> safeNumbers v \<and> renderThrows v = None)"
  shows "mount (Some (store(HISTORY_STORAGE_KEY \<mapsto> stored)))
           = Inr (firstCommit (Some (store(HISTORY_STORAGE_KEY \<mapsto> stored))))
       \<and> history (firstCommit (Some (store(HISTORY_STORAGE_KEY \<mapsto> stored))))
           = (case JSON_parse stored of None \<Rightarrow> JArr [] | Some v \<Rightarrow> v)"
proof -
  let ?w = "Some (store(HISTORY_STORAGE_KEY \<mapsto> stored))"
  have h: "initialHistory ?w = (case JSON_parse stored of None \<Rightarrow> JArr [] | Some v \<Rightarrow> v)"
    by (rule initialHistory_stored)
  have "renders (initialHistory ?w)"
    unfolding h using assms by (auto simp: renders_def renderThrows_def)
  then have "mount ?w = Inr (firstCommit ?w)" by (rule mount_renders)
  then show ?thesis using h by (simp add: history_firstCommit)
qed

theorem initial_history_adopts_parsed_value_witness:
  "JSON_parse (js ''not json'') = None
   \<and> mount (Some (Map.empty(HISTORY_STORAGE_KEY \<mapsto> js ''not json'')))
       = Inr (firstCommit (Some (Map.empty(HISTORY_STORAGE_KEY \<mapsto> js ''not json''))))
   \<and> history (firstCommit (Some (Map.empty(HISTORY_STORAGE_KEY \<mapsto> js ''not json''))))
       = JArr []
   \<and> JSON_parse (js ''[]'') = Some (JArr [])
   \<and> safeNumbers (JArr []) \<and> renderThrows (JArr []) = None
   \<and> mount (Some (Map.empty(HISTORY_STORAGE_KEY \<mapsto> js ''[]'')))
       = Inr (firstCommit (Some (Map.empty(HISTORY_STORAGE_KEY \<mapsto> js ''[]''))))
   \<and> history (firstCommit (Some (Map.empty(HISTORY_STORAGE_KEY \<mapsto> js ''[]''))))
       = JArr []"
proof -
  have a: "JSON_parse (js ''not json'') = None" by (rule parse_not_json)
  have b: "JSON_parse (js ''[]'') = Some (JArr [])"
    by (simp add: JSON_parse_def js_def lexToken_def isWhitespace_def isDigit_def)
  have c: "safeNumbers (JArr [])" "renderThrows (JArr []) = None"
    by (simp_all add: renderThrows_def)
  show ?thesis
    using initial_history_adopts_parsed_value [of "js ''not json''" Map.empty]
      initial_history_adopts_parsed_value [of "js ''[]''" Map.empty] a b c
    by simp
qed

text \<open>
  The claim as stated fails: the stored texts \<^verbatim>\<open>[1,2]\<close> and \<^verbatim>\<open>{"length":0}\<close> are JSON and
  not arrays of entries; the component mounts on each, and its history is the array of
  the numbers 1 and 2, and the object, not the empty array.
\<close>

theorem malformed_store_adopted:
  "mount (Some (Map.empty(HISTORY_STORAGE_KEY \<mapsto> js ''[1,2]'')))
     = Inr (firstCommit (Some (Map.empty(HISTORY_STORAGE_KEY \<mapsto> js ''[1,2]''))))
   \<and> history (firstCommit (Some (Map.empty(HISTORY_STORAGE_KEY \<mapsto> js ''[1,2]''))))
       = JArr [JNum 1 0, JNum 2 0]
   \<and> JArr [JNum 1 0, JNum 2 0] \<noteq> JArr []
   \<and> mount lengthZeroStore = Inr (firstCommit lengthZeroStore)
   \<and> history (firstCommit lengthZeroStore) = JObj [(js ''length'', JNum 0 0)]
   \<and> JObj [(js ''length'', JNum 0 0)] \<noteq> JArr []"
proof -
  let ?w = "Some (Map.empty(HISTORY_STORAGE_KEY \<mapsto> js ''[1,2]''))"
  have h: "initialHistory ?w = JArr [JNum 1 0, JNum 2 0]"
    unfolding initialHistory_stored parse_one_two by simp
  have "renders (initialHistory ?w)"
    unfolding h using renders_numbers [of "[1, 2]"] by simp
  then have "mount ?w = Inr (firstCommit ?w)" by (rule mount_renders)
  then show ?thesis
    using h lengthZero_facts(1,2) by (simp add: history_firstCommit)
qed

text \<open>
  C3. (amended) When the history after initialisation is an array of at most 10
  elements, it is an array of at most 10 elements after every sequence of
  \<^verbatim>\<open>selectCard\<close>, \<^verbatim>\<open>draw\<close>, \<^verbatim>\<open>closeModal\<close> and \<^verbatim>\<open>clearHistory\<close> that ends in a state.
  The updater of \<^verbatim>\<open>draw\<close> returns the new entry followed by the previous ones, cut to
  the first 10: the oldest are dropped. The sequence starts in \<open>firstCommit w\<close>, the
  state the component is mounted in when it mounts.
\<close>

theorem history_bounded:
  assumes "initialHistory w = JArr h0" "length h0 \<le> HISTORY_LIMIT"
    "fireAll evs (firstCommit w) = Inr s"
  shows "(\<exists>h. history s = JArr h \<and> length h \<le> HISTORY_LIMIT)
       \<and> appendEntry env sel (Some r) (JArr h1)
           = Inr (JArr (take HISTORY_LIMIT (entryObject (newEntry env sel r) # h1)))"
proof
  have "historyWithin (history (firstCommit w))"
    using assms(1,2) by (simp add: history_firstCommit historyWithin_def)
  then have "historyWithin (history s)" using historyWithin_fireAll [OF assms(3)] by simp
  then show "\<exists>h. history s = JArr h \<and> length h \<le> HISTORY_LIMIT"
    by (auto simp: historyWithin_def split: json.splits)
  show "appendEntry env sel (Some r) (JArr h1)
           = Inr (JArr (take HISTORY_LIMIT (entryObject (newEntry env sel r) # h1)))"
    by (simp add: appendEntry_def spread_def)
qed

theorem history_bounded_witness:
  "initialHistory (Some Map.empty) = JArr []
   \<and> length ([] :: json list) \<le> HISTORY_LIMIT
   \<and> mount (Some Map.empty) = Inr (firstCommit (Some Map.empty))
   \<and> fireAll sampleEvents (firstCommit (Some Map.empty))
       = Inr (projr (fireAll sampleEvents (firstCommit (Some Map.empty))))
   \<and> (\<exists>h. history (projr (fireAll sampleEvents (firstCommit (Some Map.empty)))) = JArr h
          \<and> length h \<le> HISTORY_LIMIT)
   \<and> appendEntry exampleEnv 2 (Some (hd rewards)) (JArr (replicate 10 (entryObject exampleEntry)))
       = Inr (JArr (entryObject (newEntry exampleEnv 2 (hd rewards))
                     # replicate 9 (entryObject exampleEntry)))"
proof -
  obtain s where s: "fireAll sampleEvents (firstCommit (Some Map.empty)) = Inr s"
    using sampleEvents_succeed by blast
  have "(\<exists>h. history s = JArr h \<and> length h \<le> HISTORY_LIMIT)
      \<and> appendEntry exampleEnv 2 (Some (hd rewards)) (JArr (replicate 10 (entryObject exampleEntry)))
       = Inr (JArr (take HISTORY_LIMIT (entryObject (newEntry exampleEnv 2 (hd rewards))
                     # replicate 10 (entryObject exampleEntry))))"
    using history_bounded [OF initialHistory_empty_store _ s] by simp
  with s show ?thesis
    by (simp add: initialHistory_empty_store mount_empty_store HISTORY_LIMIT_def)
qed

text \<open>
  The claim as stated fails at initialisation, which does not truncate: on a store that
  holds the text of an array of eleven well-formed entries the component mounts with a
  history of eleven elements, and so it does on the text \<^verbatim>\<open>[1,2,3,4,5,6,7,8,9,10,11]\<close>.
\<close>

theorem rehydration_keeps_eleven:
  "mount (Some (Map.empty(HISTORY_STORAGE_KEY \<mapsto>
       JSON_stringify (JArr (map entryObject (replicate 11 exampleEntry))))))
     = Inr (firstCommit (Some (Map.empty(HISTORY_STORAGE_KEY \<mapsto>
         JSON_stringify (JArr (map entryObject (replicate 11 exampleEntry)))))))
   \<and> history (firstCommit (Some (Map.empty(HISTORY_STORAGE_KEY \<mapsto>
       JSON_stringify (JArr (map entryObject (replicate 11 exampleEntry)))))))
     = JArr (map entryObject (replicate 11 exampleEntry))
   \<and> list_all wellFormedEntry (replicate 11 exampleEntry)
   \<and> length (map entryObject (replicate 11 exampleEntry)) = 11
   \<and> mount (Some (Map.empty(HISTORY_STORAGE_KEY \<mapsto> js ''[1,2,3,4,5,6,7,8,9,10,11]'')))
     = Inr (firstCommit (Some (Map.empty(HISTORY_STORAGE_KEY \<mapsto> js ''[1,2,3,4,5,6,7,8,9,10,11]''))))
   \<and> history (firstCommit (Some (Map.empty(HISTORY_STORAGE_KEY \<mapsto> js ''[1,2,3,4,5,6,7,8,9,10,11]''))))
     = JArr [JNum 1 0, JNum 2 0, JNum 3 0, JNum 4 0, JNum 5 0, JNum 6 0, JNum 7 0, JNum 8 0,
             JNum 9 0, JNum 10 0, JNum 11 0]
   \<and> \<not> 11 \<le> HISTORY_LIMIT"
proof -
  let ?w = "Some (Map.empty(HISTORY_STORAGE_KEY \<mapsto>
       JSON_stringify (JArr (map entryObject (replicate 11 exampleEntry)))))"
  let ?n = "Some (Map.empty(HISTORY_STORAGE_KEY \<mapsto> js ''[1,2,3,4,5,6,7,8,9,10,11]''))"
  have wf: "wellFormedEntry exampleEntry"
    by (simp add: wellFormedEntry_def safeInteger_def exampleEntry_def)
  then have "list_all plainNumbers (replicate 11 exampleEntry)"
    by (simp add: list_all_iff wellFormed_plainNumbers)
  then have entries: "initialHistory ?w = JArr (map entryObject (replicate 11 exampleEntry))"
    by (rule initialHistory_entries)
  have "renders (initialHistory ?w)" unfolding entries by (rule renders_entries)
  then have mounted: "mount ?w = Inr (firstCommit ?w)" by (rule mount_renders)
  have numbers: "initialHistory ?n
     = JArr [JNum 1 0, JNum 2 0, JNum 3 0, JNum 4 0, JNum 5 0, JNum 6 0, JNum 7 0, JNum 8 0,
             JNum 9 0, JNum 10 0, JNum 11 0]"
    by (simp add: initialHistory_stored JSON_parse_def js_def lexToken_def
        isWhitespace_def isDigit_def lexNumber_def lexInt_def lexFrac_def lexExp_def
        mkNumber_def natOfDigits_def digitVal_def)
  have "renders (initialHistory ?n)"
    unfolding numbers using renders_numbers [of "[1, 2, 3, 4, 5, 6, 7, 8, 9, 10, 11]"] by simp
  then have mounted_numbers: "mount ?n = Inr (firstCommit ?n)" by (rule mount_renders)
  have "history (firstCommit ?w) = JArr (map entryObject (replicate 11 exampleEntry))"
    using entries by (simp only: history_firstCommit)
  moreover have "history (firstCommit ?n)
     = JArr [JNum 1 0, JNum 2 0, JNum 3 0, JNum 4 0, JNum 5 0, JNum 6 0, JNum 7 0, JNum 8 0,
             JNum 9 0, JNum 10 0, JNum 11 0]"
    using numbers by (simp only: history_firstCommit)
  moreover have "list_all wellFormedEntry (replicate 11 exampleEntry)"
    using wf by (simp add: list_all_iff)
  moreover have "length (map entryObject (replicate 11 exampleEntry)) = 11" by simp
  moreover have "\<not> 11 \<le> HISTORY_LIMIT" by (simp add: HISTORY_LIMIT_def)
  ultimately show ?thesis using mounted mounted_numbers by (simp only: simp_thms)
qed

text \<open>
  C4. (amended) With a card selected (index \<open>i\<close>), a history that the spread of line 128
  iterates (an array, with elements \<open>xs\<close>, or a string, with code points \<open>xs\<close>) and
  \<^verbatim>\<open>Math.random()\<close> in \<open>[0, 1)\<close>, \<^verbatim>\<open>draw()\<close> ends with the current reward one of the four
  rewards of the catalog, the history the new entry followed by the first nine of \<open>xs\<close>,
  the entry holding the card number \<open>i + 1\<close> and the title and icon of that reward, and
  the modal open.
\<close>

theorem draw_with_selection:
  assumes "selectedCard s = Some i" "spread (history s) = Some xs"
    "0 \<le> mathRandom1 env" "mathRandom1 env < 1"
  shows "\<exists>r s'. r \<in> set rewards \<and> length rewards = 4
           \<and> draw env s = Inr s'
           \<and> currentReward s' = Some r
           \<and> history s' =
               JArr (JObj [(js ''id'', JStr (numberToString (dateNow1 env) 0 @ js ''-''
                                               @ drop 2 (mathRandomHex env))),
                           (js ''cardNumber'', JNum (i + 1) 0),
                           (js ''rewardTitle'', JStr (title r)),
                           (js ''rewardIcon'', JStr (icon r)),
                           (js ''timestamp'', JNum (dateNow2 env) 0)]
                     # take (HISTORY_LIMIT - 1) xs)
           \<and> isModalOpen s'"
proof -
  let ?r = "rewards ! nat \<lfloor>mathRandom1 env * 4\<rfloor>"
  have "?r \<in> set rewards" using rewardAt_floor(2) [OF assms(3,4)] .
  moreover have "length rewards = 4" by (simp add: rewards_def)
  moreover note draw_selected_eq [OF assms]
  ultimately show ?thesis
    by (simp add: newEntry_def entryObject_def HISTORY_LIMIT_def)
qed

theorem draw_with_selection_witness:
  "selectedCard exampleState = Some 2 \<and> spread (history exampleState) = Some []
   \<and> 0 \<le> mathRandom1 exampleEnv \<and> mathRandom1 exampleEnv < 1
   \<and> (\<exists>r s'. r \<in> set rewards \<and> length rewards = 4
           \<and> draw exampleEnv exampleState = Inr s'
           \<and> currentReward s' = Some r
           \<and> history s' =
               JArr (JObj [(js ''id'', JStr (numberToString (dateNow1 exampleEnv) 0 @ js ''-''
                                               @ drop 2 (mathRandomHex exampleEnv))),
                           (js ''cardNumber'', JNum (2 + 1) 0),
                           (js ''rewardTitle'', JStr (title r)),
                           (js ''rewardIcon'', JStr (icon r)),
                           (js ''timestamp'', JNum (dateNow2 exampleEnv) 0)]
                     # take (HISTORY_LIMIT - 1) [])
           \<and> isModalOpen s')"
  using draw_with_selection [OF exampleState_facts] exampleState_facts by simp

text \<open>
  The claim as stated fails: on a store that holds the text \<^verbatim>\<open>{"length":0}\<close> the component
  mounts, \<^verbatim>\<open>selectCard(2)\<close> selects card 3, and \<^verbatim>\<open>draw()\<close> throws, the history being an
  object that the spread cannot iterate. There is no end state: no reward, no entry, no
  modal.
\<close>

theorem draw_throws_on_object_history:
  "mount lengthZeroStore = Inr (firstCommit lengthZeroStore)
   \<and> selectCard exampleEnv 2 (firstCommit lengthZeroStore) = Inr (objectHistoryState 2)
   \<and> selectedCard (objectHistoryState 2) = Some 2
   \<and> draw exampleEnv (objectHistoryState 2) = Inl TypeError"
  by (simp add: lengthZero_facts)

text \<open>
  C5. With no card selected \<^verbatim>\<open>draw()\<close> changes the status message and nothing else:
  history, current reward, modal flag and store stay as they were.
\<close>

theorem draw_without_selection:
  assumes "selectedCard s = None"
  shows "draw env s = Inr (s\<lparr>statusMessage := js ''Choose a card first to start the draw.''\<rparr>)"
  using assms by (simp add: draw_def handleDraw_def runEffects_def)

theorem draw_without_selection_witness:
  "selectedCard (firstCommit (Some Map.empty)) = None
   \<and> draw exampleEnv (firstCommit (Some Map.empty)) =
       Inr ((firstCommit (Some Map.empty))\<lparr>statusMessage := js ''Choose a card first to start the draw.''\<rparr>)"
  using draw_without_selection [of "firstCommit (Some Map.empty)" exampleEnv]
  by (simp add: selectedCard_firstCommit)

text \<open>
  C6. In a state where card \<open>i\<close> is selected, \<^verbatim>\<open>selectCard(i)\<close> ends in the state
  \<^verbatim>\<open>draw()\<close> ends in, for the same answers of the platform. So from any state \<open>s0\<close>,
  \<^verbatim>\<open>selectCard(i)\<close> followed by \<^verbatim>\<open>selectCard(i)\<close> ends where \<^verbatim>\<open>selectCard(i)\<close> followed by
  \<^verbatim>\<open>draw()\<close> ends.
\<close>

theorem selectCard_again_is_draw:
  assumes "selectedCard s = Some i"
  shows "selectCard env i s = draw env s
       \<and> andThen (selectCard env0 i s0) (selectCard env i)
           = andThen (selectCard env0 i s0) (draw env)"
proof
  show "selectCard env i s = draw env s" using assms by (rule selectCard_selected)
  show "andThen (selectCard env0 i s0) (selectCard env i)
           = andThen (selectCard env0 i s0) (draw env)"
  proof (cases "selectCard env0 i s0")
    case (Inl e)
    then show ?thesis by (simp add: andThen_def)
  next
    case (Inr s1)
    then have "selectedCard s1 = Some i" by (rule selectCard_selects)
    then show ?thesis using Inr by (simp add: andThen_def selectCard_selected)
  qed
qed

theorem selectCard_again_is_draw_witness:
  "selectedCard exampleState = Some 2
   \<and> selectCard exampleEnv 2 exampleState = draw exampleEnv exampleState
   \<and> andThen (selectCard exampleEnv 2 (firstCommit (Some Map.empty))) (selectCard exampleEnv 2)
       = andThen (selectCard exampleEnv 2 (firstCommit (Some Map.empty))) (draw exampleEnv)"
  using selectCard_again_is_draw [of exampleState 2 exampleEnv exampleEnv "firstCommit (Some Map.empty)"]
  by (simp add: exampleState_def)

text \<open>
  C7. \<^verbatim>\<open>selectCard(i)\<close> in a state where card \<open>i\<close> is not the selected one (none is
  selected, or another one) selects \<open>i\<close>, sets the current reward to \<^verbatim>\<open>null\<close> and sets a
  status message that is not empty; nothing else changes. This holds for every index,
  the four of the interface included.
\<close>

theorem selectCard_other_card:
  assumes "selectedCard s \<noteq> Some i"
  shows "selectCard env i s =
           Inr (s\<lparr>selectedCard := Some i, currentReward := None,
                  statusMessage := js ''Click again to open, or choose another card.''\<rparr>)
         \<and> js ''Click again to open, or choose another card.'' \<noteq> []"
  using assms by (simp add: selectCard_def handleCardSelect_def runEffects_def js_def)

theorem selectCard_other_card_witness:
  "selectedCard exampleState \<noteq> Some 3
   \<and> selectCard exampleEnv 3 exampleState =
           Inr (exampleState\<lparr>selectedCard := Some 3, currentReward := None,
                  statusMessage := js ''Click again to open, or choose another card.''\<rparr>)
   \<and> js ''Click again to open, or choose another card.'' \<noteq> []"
  using selectCard_other_card [of exampleState 3 exampleEnv]
  by (simp add: exampleState_def)

text \<open>
  C8. A history of well-formed entries that the effect has written to the store is the
  history of a session mounted on that store, entry for entry and in the same order, and
  the session does mount. The empty history is included.
\<close>

theorem history_round_trip:
  assumes "list_all wellFormedEntry es" "history s = JArr (map entryObject es)"
    "localStorage s = Some store"
  shows "mount (localStorage (persistHistory s))
           = Inr (firstCommit (localStorage (persistHistory s)))
       \<and> history (firstCommit (localStorage (persistHistory s))) = JArr (map entryObject es)"
proof -
  let ?w = "localStorage (persistHistory s)"
  have h: "initialHistory ?w = JArr (map entryObject es)"
    using assms initialHistory_entries [OF list_all_wellFormed_plainNumbers [OF assms(1)]]
    by (simp add: persistHistory_def)
  have "renders (initialHistory ?w)" unfolding h by (rule renders_entries)
  then have "mount ?w = Inr (firstCommit ?w)" by (rule mount_renders)
  then show ?thesis using h by (simp only: history_firstCommit simp_thms)
qed

theorem history_round_trip_witness:
  "list_all wellFormedEntry [exampleEntry]
   \<and> history (exampleState\<lparr>history := JArr (map entryObject [exampleEntry])\<rparr>)
       = JArr (map entryObject [exampleEntry])
   \<and> localStorage (exampleState\<lparr>history := JArr (map entryObject [exampleEntry])\<rparr>)
       = Some (Map.empty(HISTORY_STORAGE_KEY \<mapsto> js ''[]''))
   \<and> mount (localStorage (persistHistory
         (exampleState\<lparr>history := JArr (map entryObject [exampleEntry])\<rparr>)))
       = Inr (firstCommit (localStorage (persistHistory
           (exampleState\<lparr>history := JArr (map entryObject [exampleEntry])\<rparr>))))
   \<and> history (firstCommit (localStorage (persistHistory
         (exampleState\<lparr>history := JArr (map entryObject [exampleEntry])\<rparr>))))
       = JArr (map entryObject [exampleEntry])"
proof -
  have a: "list_all wellFormedEntry [exampleEntry]"
    by (simp add: wellFormedEntry_def safeInteger_def exampleEntry_def)
  have b: "localStorage (exampleState\<lparr>history := JArr (map entryObject [exampleEntry])\<rparr>)
       = Some (Map.empty(HISTORY_STORAGE_KEY \<mapsto> js ''[]''))"
    by (simp add: exampleState_def firstCommit_def persistHistory_def initialState_def
        initialHistory_empty_store js_def)
  show ?thesis
    using history_round_trip [OF a _ b] a b by simp
qed

text \<open>
  C9. \<^verbatim>\<open>closeModal()\<close> ends with the modal closed, a second call changes nothing more,
  and selection, current reward, status message, history and store are untouched.
\<close>

theorem closeModal_frame:
  "\<not> isModalOpen (closeModal s)
   \<and> closeModal (closeModal s) = closeModal s
   \<and> selectedCard (closeModal s) = selectedCard s
   \<and> currentReward (closeModal s) = currentReward s
   \<and> statusMessage (closeModal s) = statusMessage s
   \<and> history (closeModal s) = history s
   \<and> isDrawing (closeModal s) = isDrawing s
   \<and> localStorage (closeModal s) = localStorage s"
  by (simp add: closeModal_def handleCloseModal_def runEffects_def)

text \<open>
  C10. (amended) With a card selected, a history that the spread of line 128 iterates
  (an array or a string) and \<^verbatim>\<open>Math.random()\<close> in \<open>[0, 1)\<close>, \<^verbatim>\<open>draw()\<close> leaves the selection
  as it was and the drawing flag false, and a second \<^verbatim>\<open>draw()\<close> succeeds from there in the
  same way.
\<close>

theorem draw_keeps_selection:
  assumes "selectedCard s = Some i" "spread (history s) = Some xs"
    "0 \<le> mathRandom1 env" "mathRandom1 env < 1"
    "0 \<le> mathRandom1 env'" "mathRandom1 env' < 1"
  shows "\<exists>s' s''. draw env s = Inr s' \<and> selectedCard s' = Some i \<and> \<not> isDrawing s'
           \<and> draw env' s' = Inr s'' \<and> selectedCard s'' = Some i \<and> \<not> isDrawing s''"
proof -
  obtain s' h' where s': "draw env s = Inr s'"
    and sel: "selectedCard s' = Some i" and nd: "\<not> isDrawing s'"
    and h': "history s' = JArr h'"
    using draw_selected_eq [OF assms(1-4)] assms(1) by simp
  have "spread (history s') = Some h'" using h' by (simp add: spread_array)
  then obtain s'' where "draw env' s' = Inr s''" "selectedCard s'' = Some i" "\<not> isDrawing s''"
    using draw_selected_eq [OF sel _ assms(5,6)] sel by simp
  with s' sel nd show ?thesis by blast
qed

theorem draw_keeps_selection_witness:
  "selectedCard exampleState = Some 2 \<and> spread (history exampleState) = Some []
   \<and> 0 \<le> mathRandom1 exampleEnv \<and> mathRandom1 exampleEnv < 1
   \<and> (\<exists>s' s''. draw exampleEnv exampleState = Inr s' \<and> selectedCard s' = Some 2
           \<and> \<not> isDrawing s'
           \<and> draw exampleEnv s' = Inr s'' \<and> selectedCard s'' = Some 2 \<and> \<not> isDrawing s'')"
  using draw_keeps_selection [OF exampleState_facts exampleState_facts(3,4)] exampleState_facts
  by simp

text \<open>
  The claim as stated fails: on a store that holds the text \<^verbatim>\<open>{"length":0}\<close> the component
  mounts, \<^verbatim>\<open>selectCard(0)\<close> selects card 1, and \<^verbatim>\<open>draw()\<close> throws. The operation does not
  complete, and no further draw is possible.
\<close>

theorem draw_fails_with_card_selected:
  "mount lengthZeroStore = Inr (firstCommit lengthZeroStore)
   \<and> selectCard exampleEnv 0 (firstCommit lengthZeroStore) = Inr (objectHistoryState 0)
   \<and> selectedCard (objectHistoryState 0) = Some 0
   \<and> draw exampleEnv (objectHistoryState 0) = Inl TypeError"
  by (simp add: lengthZero_facts)

end
